theory Spec2Isabelle
  imports Main
begin

section \<open>JavaScript values and strings\<close>

text \<open>
  The server handles JSON request bodies and documents of the store. The values that
  reach the notification code are modelled by \<open>jsval\<close>: \<open>undefined\<close>, \<open>null\<close>,
  booleans and strings (numbers, arrays and objects are left out of the model).
  A string is a list of code units; a \<open>char\<close> stands for one UTF-16 code unit in the
  range 0..255, so \<open>length\<close> and \<open>take\<close> count what JavaScript's \<open>length\<close> and
  \<open>substring\<close> count.
\<close>

datatype jsval = JUndefined | JNull | JBool bool | JStr string

text \<open>\<open>Boolean(v)\<close>, the test behind \<open>!v\<close>, \<open>v || w\<close>, \<open>v && w\<close> and \<open>filter(Boolean)\<close>.\<close>

fun truthy :: "jsval \<Rightarrow> bool" where
  "truthy JUndefined = False"
| "truthy JNull = False"
| "truthy (JBool b) = b"
| "truthy (JStr s) = (s \<noteq> [])"

text \<open>\<open>String(v)\<close>, also used by template literals.\<close>

fun toString :: "jsval \<Rightarrow> string" where
  "toString JUndefined = ''undefined''"
| "toString JNull = ''null''"
| "toString (JBool b) = (if b then ''true'' else ''false'')"
| "toString (JStr s) = s"

text \<open>\<open>a || b\<close>\<close>

definition js_or :: "jsval \<Rightarrow> jsval \<Rightarrow> jsval" where
  "js_or a b = (if truthy a then a else b)"

text \<open>
  White space removed by \<open>String.prototype.trim\<close>, among the code units 0..255:
  TAB, LF, VT, FF, CR, SPACE and NBSP.
\<close>

definition is_space :: "char \<Rightarrow> bool" where
  "is_space c = (c \<in> set [CHR 0x09, CHR 0x0A, CHR 0x0B, CHR 0x0C, CHR 0x0D, CHR 0x20, CHR 0xA0])"

definition trim :: "string \<Rightarrow> string" where
  "trim s = rev (dropWhile is_space (rev (dropWhile is_space s)))"

text \<open>\<open>s.substring(0, n)\<close>\<close>

definition substring0 :: "nat \<Rightarrow> string \<Rightarrow> string" where
  "substring0 n s = take n s"

text \<open>\<open>s.includes(p)\<close>: \<open>p\<close> occurs in \<open>s\<close> as a contiguous run.\<close>

fun str_includes :: "string \<Rightarrow> string \<Rightarrow> bool" where
  "str_includes [] p = (p = [])"
| "str_includes (c # s) p = (take (length p) (c # s) = p \<or> str_includes s p)"

text \<open>\<open>xs[i]\<close>: \<open>undefined\<close> out of range.\<close>

definition js_index :: "jsval list \<Rightarrow> nat \<Rightarrow> jsval" where
  "js_index xs i = (if i < length xs then xs ! i else JUndefined)"

text \<open>
  \<open>[...new Set(xs)]\<close>: a \<open>Set\<close> keeps its members in insertion order and ignores the
  insertion of a value it already has, so the first occurrence of each value stays.
\<close>

fun set_add_all :: "'a list \<Rightarrow> 'a list \<Rightarrow> 'a list" where
  "set_add_all seen [] = seen"
| "set_add_all seen (x # xs) = set_add_all (if x \<in> set seen then seen else seen @ [x]) xs"

definition new_Set :: "'a list \<Rightarrow> 'a list" where
  "new_Set xs = set_add_all [] xs"

section \<open>Errors, the environment and the process state\<close>

text \<open>A thrown \<open>Error\<close> (or rejected promise), identified by its message as the routes do.\<close>

datatype error = Error (message: string)

definition not_configured :: error where
  "not_configured = Error ''Firebase messaging is not configured''"

text \<open>What \<open>JSON.parse\<close> returns; only its truthiness is looked at by the server.\<close>

datatype json =
    JsonNull
  | JsonBool bool
  | JsonNumber int
  | JsonString string
  | JsonArray "json list"
  | JsonObject "(string \<times> json) list"

fun json_truthy :: "json \<Rightarrow> bool" where
  "json_truthy JsonNull = False"
| "json_truthy (JsonBool b) = b"
| "json_truthy (JsonNumber n) = (n \<noteq> 0)"
| "json_truthy (JsonString s) = (s \<noteq> [])"
| "json_truthy (JsonArray _) = True"
| "json_truthy (JsonObject _) = True"

text \<open>One result of \<open>sendEachForMulticast\<close> per token: \<open>{success, error?: {code}}\<close>.\<close>

record send_response =
  success :: bool
  error_code :: "string option"

record batch_response =
  successCount :: nat
  failureCount :: nat
  responses :: "send_response list"

record notification =
  title :: string
  body :: string

record android_notification =
  channelId :: jsval
  sound :: string
  tag :: jsval

record android_config =
  priority :: string
  android_notification :: android_notification

record apns_config =
  apns_priority :: string
  aps_sound :: string
  aps_category :: jsval

record multicast_message =
  tokens :: "jsval list"
  notification :: notification
  data :: "(string \<times> jsval) list"
  android :: android_config
  apns :: apns_config

text \<open>The operations on the store that the environment can make fail.\<close>

datatype db_op =
    FindUser string
  | FindItem string
  | PullUserTokens string
  | RegisterUserToken string "string option"
  | SaveOffer
  | UpdateItem string
  | FindItems
  | CountItems

text \<open>
  Everything outside the server: the process environment variables, the library
  functions \<open>JSON.parse\<close> (\<open>None\<close> when it throws) and base64 decoding, the Firebase
  Admin SDK (whether \<open>initializeApp\<close> with the credential and \<open>messaging()\<close> succeed, and
  what the push provider answers to a multicast message, \<open>Inl\<close> when the call rejects),
  the store (\<open>db_error op = Some msg\<close> when the operation rejects with that message),
  the clock, and the regular-expression match of the item search.
\<close>

record env =
  FIREBASE_SERVICE_ACCOUNT_JSON :: "string option"
  FIREBASE_SERVICE_ACCOUNT :: "string option"
  JSON_parse :: "string \<Rightarrow> json option"
  base64_decode :: "string \<Rightarrow> string"
  initializeApp_ok :: "json \<Rightarrow> bool"
  messaging_ok :: bool
  sendEachForMulticast :: "multicast_message \<Rightarrow> error + batch_response"
  db_error :: "db_op \<Rightarrow> string option"
  now :: nat
  regex_match_i :: "string \<Rightarrow> string \<Rightarrow> bool"

datatype console_line =
    InvalidCredentialJson
  | FirebaseNotConfiguredWarning
  | FirebaseInitialized
  | FirebaseInitFailed
  | PruneFailed string error
  | OfferDispatchFailed string error
  | RegisterTokenFailed error
  | SendOfferNotificationFailed error

text \<open>
  A stored value under \<open>deviceTokens\<close>: a string, or an embedded document when an
  update path ran deeper than one field.
\<close>

datatype field_value = FString string | FDocument "(string \<times> field_value) list"

record user =
  user_id :: string
  user_name :: string
  email :: string
  fcmTokens :: "jsval list"
  deviceTokens :: "(string \<times> field_value) list"
  lastActive :: nat
  user_createdAt :: nat
  user_updatedAt :: nat

record item =
  item_id :: string
  item_name :: string
  description :: string
  category :: string
  condition :: string
  images :: "string list"
  ownerId :: string
  isAvailable :: bool
  item_createdAt :: nat
  item_updatedAt :: nat

record offer =
  offer_id :: string
  fromUserId :: string
  toUserId :: string
  requestedItemId :: string
  offeredItemIds :: "string list"
  status :: string
  offer_message :: "string option"
  offer_createdAt :: nat
  offer_updatedAt :: nat

text \<open>
  The state of the process and of the store: the collections, the memoized messaging
  client (\<open>firebaseMessaging\<close>, \<open>True\<close> once set), the number of initialized Firebase
  apps (\<open>admin.apps.length\<close>), the messages handed to the push provider so far and the
  lines written to the console.
\<close>

record world =
  users :: "user list"
  items :: "item list"
  offers :: "offer list"
  firebaseMessaging :: bool
  admin_apps :: nat
  sent :: "multicast_message list"
  console :: "console_line list"

section \<open>Credential bootstrap\<close>

text \<open>\<open>process.env.FIREBASE_SERVICE_ACCOUNT_JSON || process.env.FIREBASE_SERVICE_ACCOUNT\<close>\<close>

definition getRawFirebaseCredential :: "env \<Rightarrow> string option" where
  "getRawFirebaseCredential e =
     (case FIREBASE_SERVICE_ACCOUNT_JSON e of
        Some s \<Rightarrow> if s \<noteq> [] then Some s else FIREBASE_SERVICE_ACCOUNT e
      | None \<Rightarrow> FIREBASE_SERVICE_ACCOUNT e)"

definition parseFirebaseCredential :: "env \<Rightarrow> world \<Rightarrow> json option \<times> world" where
  "parseFirebaseCredential e w =
     (case getRawFirebaseCredential e of
        None \<Rightarrow> (None, w)
      | Some raw \<Rightarrow>
          if raw = [] then (None, w)
          else (case JSON_parse e raw of
                  Some c \<Rightarrow> (Some c, w)
                | None \<Rightarrow>
                    (case JSON_parse e (base64_decode e raw) of
                       Some c \<Rightarrow> (Some c, w)
                     | None \<Rightarrow> (None, w\<lparr>console := console w @ [InvalidCredentialJson]\<rparr>))))"

text \<open>
  \<open>initializeFirebaseMessaging\<close> returns the client or \<open>null\<close>; the result here is
  whether a client was returned.
\<close>

definition initializeFirebaseMessaging :: "env \<Rightarrow> world \<Rightarrow> bool \<times> world" where
  "initializeFirebaseMessaging e w =
     (if firebaseMessaging w then (True, w)
      else if admin_apps w = 0 then
        (case parseFirebaseCredential e w of
           (None, w1) \<Rightarrow> (False, w1\<lparr>console := console w1 @ [FirebaseNotConfiguredWarning]\<rparr>)
         | (Some c, w1) \<Rightarrow>
             if \<not> json_truthy c then
               (False, w1\<lparr>console := console w1 @ [FirebaseNotConfiguredWarning]\<rparr>)
             else if \<not> initializeApp_ok e c then
               (False, w1\<lparr>console := console w1 @ [FirebaseInitFailed]\<rparr>)
             else
               (let w2 = w1\<lparr>admin_apps := Suc (admin_apps w1),
                              console := console w1 @ [FirebaseInitialized]\<rparr>
                in if messaging_ok e then (True, w2\<lparr>firebaseMessaging := True\<rparr>)
                   else (False, w2\<lparr>console := console w2 @ [FirebaseInitFailed]\<rparr>)))
      else if messaging_ok e then (True, w\<lparr>firebaseMessaging := True\<rparr>)
      else (False, w\<lparr>console := console w @ [FirebaseInitFailed]\<rparr>))"

definition getFirebaseMessaging :: "env \<Rightarrow> world \<Rightarrow> bool \<times> world" where
  "getFirebaseMessaging e w =
     (if firebaseMessaging w then (True, w) else initializeFirebaseMessaging e w)"

section \<open>Sending a push notification\<close>

definition buildDataPayload :: "(string \<times> jsval) list \<Rightarrow> (string \<times> jsval) list" where
  "buildDataPayload d =
     map (\<lambda>(key, v). (key, if v = JUndefined \<or> v = JNull then JStr [] else JStr (toString v))) d"

record android_options =
  opt_channelId :: jsval
  opt_tag :: jsval
  opt_apnsCategory :: jsval

record push_args =
  arg_tokens :: "jsval list option"
  arg_notification :: notification
  arg_data :: "(string \<times> jsval) list"
  arg_android :: android_options

record push_result =
  res_successCount :: nat
  res_failureCount :: nat
  invalidTokens :: "jsval list"

definition chunkSize :: nat where
  "chunkSize = 500"

text \<open>
  The loop \<open>for (let i = 0; i < uniqueTokens.length; i += chunkSize)\<close> pushing
  \<open>uniqueTokens.slice(i, i + chunkSize)\<close>.
\<close>

function chunk_loop :: "nat \<Rightarrow> 'a list \<Rightarrow> 'a list list \<Rightarrow> 'a list list" where
  "chunk_loop i xs batches =
     (if i < length xs
      then chunk_loop (i + chunkSize) xs (batches @ [take chunkSize (drop i xs)])
      else batches)"
  by pat_completeness auto
termination
  by (relation "measure (\<lambda>(i, xs, batches). length xs - i)") (auto simp: chunkSize_def)

definition uniqueTokens :: "jsval list option \<Rightarrow> jsval list" where
  "uniqueTokens ts = new_Set (filter truthy (case ts of None \<Rightarrow> [] | Some xs \<Rightarrow> xs))"

definition batches_of :: "jsval list option \<Rightarrow> jsval list list" where
  "batches_of ts = chunk_loop 0 (uniqueTokens ts) []"

definition build_message :: "push_args \<Rightarrow> jsval list \<Rightarrow> multicast_message" where
  "build_message a batch =
     \<lparr>tokens = batch,
      notification = arg_notification a,
      data = buildDataPayload (arg_data a),
      android = \<lparr>priority = ''high'',
                 android_notification =
                   \<lparr>channelId = js_or (opt_channelId (arg_android a)) (JStr ''swoptrader_notifications''),
                    sound = ''default'',
                    tag = opt_tag (arg_android a)\<rparr>\<rparr>,
      apns = \<lparr>apns_priority = ''10'',
              aps_sound = ''default'',
              aps_category = js_or (opt_apnsCategory (arg_android a)) (JStr ''SWOPTRADER_EVENT'')\<rparr>\<rparr>"

text \<open>
  An error code marks its token as permanently invalid; \<open>result.error?.code || ''\<close> is
  the empty string when there is no code.
\<close>

definition is_invalid_code :: "string option \<Rightarrow> bool" where
  "is_invalid_code c =
     (let errorCode = (case c of None \<Rightarrow> [] | Some s \<Rightarrow> s)
      in str_includes errorCode ''registration-token-not-registered'' \<or>
         str_includes errorCode ''invalid-registration-token'')"

text \<open>\<open>response.responses.forEach((result, index) => ...)\<close>, from \<open>index\<close> on.\<close>

fun collect_invalid :: "jsval list \<Rightarrow> nat \<Rightarrow> send_response list \<Rightarrow> jsval list \<Rightarrow> jsval list" where
  "collect_invalid batch index [] acc = acc"
| "collect_invalid batch index (r # rs) acc =
     collect_invalid batch (Suc index) rs
       (if \<not> success r \<and> is_invalid_code (error_code r) then acc @ [js_index batch index] else acc)"

text \<open>
  \<open>for (const batch of batches)\<close>: each batch is handed to the provider (and recorded
  in \<open>sent\<close>); a rejected call ends the loop with the error, otherwise the counts and the
  invalid tokens accumulate.
\<close>

fun send_batches :: "env \<Rightarrow> push_args \<Rightarrow> jsval list list \<Rightarrow> push_result \<Rightarrow> world
    \<Rightarrow> (error + push_result) \<times> world" where
  "send_batches e a [] acc w = (Inr acc, w)"
| "send_batches e a (batch # rest) acc w =
     (let msg = build_message a batch;
          w1 = w\<lparr>sent := sent w @ [msg]\<rparr>
      in case sendEachForMulticast e msg of
           Inl err \<Rightarrow> (Inl err, w1)
         | Inr response \<Rightarrow>
             send_batches e a rest
               \<lparr>res_successCount = res_successCount acc + successCount response,
                res_failureCount = res_failureCount acc + failureCount response,
                invalidTokens = collect_invalid batch 0 (responses response) (invalidTokens acc)\<rparr>
               w1)"

definition sendPushNotification :: "env \<Rightarrow> push_args \<Rightarrow> world \<Rightarrow> (error + push_result) \<times> world" where
  "sendPushNotification e a w =
     (case getFirebaseMessaging e w of
        (False, w1) \<Rightarrow> (Inl not_configured, w1)
      | (True, w1) \<Rightarrow>
          if uniqueTokens (arg_tokens a) = [] then
            (Inr \<lparr>res_successCount = 0, res_failureCount = 0, invalidTokens = []\<rparr>, w1)
          else
            send_batches e a (batches_of (arg_tokens a))
              \<lparr>res_successCount = 0, res_failureCount = 0, invalidTokens = []\<rparr> w1)"

section \<open>Pruning invalid tokens\<close>

fun update_first :: "('a \<Rightarrow> bool) \<Rightarrow> ('a \<Rightarrow> 'a) \<Rightarrow> 'a list \<Rightarrow> 'a list" where
  "update_first p f [] = []"
| "update_first p f (x # xs) = (if p x then f x # xs else x # update_first p f xs)"

text \<open>
  \<open>User.updateOne({id: userId}, {$pull: {fcmTokens: {$in: invalidTokens}}, $set: {updatedAt}})\<close>
  on the first user with that id (none: nothing changes).
\<close>

definition pull_tokens :: "nat \<Rightarrow> string \<Rightarrow> jsval list \<Rightarrow> user list \<Rightarrow> user list" where
  "pull_tokens t userId invalid us =
     update_first (\<lambda>u. user_id u = userId)
       (\<lambda>u. u\<lparr>fcmTokens := filter (\<lambda>tok. tok \<notin> set invalid) (fcmTokens u), user_updatedAt := t\<rparr>) us"

definition removeInvalidTokens :: "env \<Rightarrow> string \<Rightarrow> jsval list \<Rightarrow> world \<Rightarrow> world" where
  "removeInvalidTokens e userId invalid w =
     (if invalid = [] then w
      else (case db_error e (PullUserTokens userId) of
              Some msg \<Rightarrow> w\<lparr>console := console w @ [PruneFailed userId (Error msg)]\<rparr>
            | None \<Rightarrow> w\<lparr>users := pull_tokens (now e) userId invalid (users w)\<rparr>))"

section \<open>The offer notification\<close>

record offer_notification =
  offerId :: jsval
  recipientUserId :: string
  senderUserId :: jsval
  senderName :: jsval
  itemName :: jsval
  message_text :: jsval

datatype offer_result = Skipped string | Dispatched push_result

text \<open>\<open>User.findOne({id: userId})\<close>\<close>

definition find_user :: "world \<Rightarrow> string \<Rightarrow> user option" where
  "find_user w userId = find (\<lambda>u. user_id u = userId) (users w)"

definition find_item :: "world \<Rightarrow> string \<Rightarrow> item option" where
  "find_item w itemId = find (\<lambda>i. item_id i = itemId) (items w)"

text \<open>\<open>recipient?.fcmTokens?.filter(Boolean) || []\<close>\<close>

definition recipientTokens :: "world \<Rightarrow> string \<Rightarrow> jsval list" where
  "recipientTokens w userId =
     (case find_user w userId of None \<Rightarrow> [] | Some u \<Rightarrow> filter truthy (fcmTokens u))"

definition resolvedSenderName :: "offer_notification \<Rightarrow> jsval" where
  "resolvedSenderName n = js_or (senderName n) (JStr ''A SwopTrader user'')"

definition offer_title :: "offer_notification \<Rightarrow> string" where
  "offer_title n = toString (resolvedSenderName n) @ '' sent you an offer''"

definition fallback_body :: "offer_notification \<Rightarrow> string" where
  "fallback_body n = ''New pitch on '' @ toString (js_or (itemName n) (JStr ''your listing''))"

text \<open>
  \<open>(message && message.trim().substring(0, 140)) || `New pitch on ...`\<close>; calling
  \<open>trim\<close> on a truthy value that is not a string throws a \<open>TypeError\<close>.
\<close>

definition offer_body :: "offer_notification \<Rightarrow> error + string" where
  "offer_body n =
     (if \<not> truthy (message_text n) then Inr (fallback_body n)
      else (case message_text n of
              JStr s \<Rightarrow>
                (let b = substring0 140 (trim s)
                 in if b \<noteq> [] then Inr b else Inr (fallback_body n))
            | _ \<Rightarrow> Inl (Error ''message.trim is not a function'')))"

definition offer_data :: "offer_notification \<Rightarrow> (string \<times> jsval) list" where
  "offer_data n =
     [(''type'', JStr ''offer''),
      (''offerId'', offerId n),
      (''senderUserId'', senderUserId n),
      (''senderName'', resolvedSenderName n),
      (''recipientUserId'', JStr (recipientUserId n)),
      (''itemName'', js_or (itemName n) (JStr [])),
      (''message'', js_or (message_text n) (JStr []))]"

definition offer_push_args :: "offer_notification \<Rightarrow> jsval list \<Rightarrow> string \<Rightarrow> push_args" where
  "offer_push_args n toks b =
     \<lparr>arg_tokens = Some toks,
      arg_notification = \<lparr>title = offer_title n, body = b\<rparr>,
      arg_data = offer_data n,
      arg_android = \<lparr>opt_channelId = JStr ''swoptrader_offers'',
                     opt_tag = JStr (''offer_'' @ toString (offerId n)),
                     opt_apnsCategory = JStr ''SWOPTRADER_OFFER''\<rparr>\<rparr>"

definition sendOfferNotification :: "env \<Rightarrow> offer_notification \<Rightarrow> world
    \<Rightarrow> (error + offer_result) \<times> world" where
  "sendOfferNotification e n w =
     (case db_error e (FindUser (recipientUserId n)) of
        Some msg \<Rightarrow> (Inl (Error msg), w)
      | None \<Rightarrow>
          (let toks = recipientTokens w (recipientUserId n)
           in if toks = [] then (Inr (Skipped ''no_tokens''), w)
              else (case offer_body n of
                      Inl err \<Rightarrow> (Inl err, w)
                    | Inr b \<Rightarrow>
                        (case sendPushNotification e (offer_push_args n toks b) w of
                           (Inl err, w1) \<Rightarrow> (Inl err, w1)
                         | (Inr response, w1) \<Rightarrow>
                             (Inr (Dispatched response),
                              if invalidTokens response \<noteq> []
                              then removeInvalidTokens e (recipientUserId n) (invalidTokens response) w1
                              else w1)))))"

text \<open>
  \<open>queueOfferNotificationForOffer\<close>: the two lookups, then the dispatch, all inside one
  \<open>try\<close> whose \<open>catch\<close> writes a console line; the function returns nothing.
\<close>

definition offer_lookups :: "env \<Rightarrow> offer \<Rightarrow> world \<Rightarrow> error + (user option \<times> item option)" where
  "offer_lookups e off w =
     (case db_error e (FindUser (fromUserId off)) of
        Some msg \<Rightarrow> Inl (Error msg)
      | None \<Rightarrow>
          (case db_error e (FindItem (requestedItemId off)) of
             Some msg \<Rightarrow> Inl (Error msg)
           | None \<Rightarrow> Inr (find_user w (fromUserId off), find_item w (requestedItemId off))))"

definition queued_notification :: "offer \<Rightarrow> user option \<Rightarrow> item option \<Rightarrow> offer_notification" where
  "queued_notification off sender requestedItem =
     \<lparr>offerId = JStr (offer_id off),
      recipientUserId = toUserId off,
      senderUserId = JStr (fromUserId off),
      senderName = js_or (case sender of None \<Rightarrow> JUndefined | Some u \<Rightarrow> JStr (user_name u))
                     (JStr ''A SwopTrader user''),
      itemName = js_or (case requestedItem of None \<Rightarrow> JUndefined | Some i \<Rightarrow> JStr (item_name i))
                   (JStr []),
      message_text = js_or (case offer_message off of None \<Rightarrow> JUndefined | Some m \<Rightarrow> JStr m)
                       (JStr [])\<rparr>"

definition queueOfferNotificationForOffer :: "env \<Rightarrow> offer option \<Rightarrow> world \<Rightarrow> world" where
  "queueOfferNotificationForOffer e offer_opt w =
     (case offer_opt of
        None \<Rightarrow> w
      | Some off \<Rightarrow>
          (case offer_lookups e off w of
             Inl err \<Rightarrow> w\<lparr>console := console w @ [OfferDispatchFailed (offer_id off) err]\<rparr>
           | Inr (sender, requestedItem) \<Rightarrow>
               (case sendOfferNotification e (queued_notification off sender requestedItem) w of
                  (Inl err, w1) \<Rightarrow> w1\<lparr>console := console w1 @ [OfferDispatchFailed (offer_id off) err]\<rparr>
                | (Inr r, w1) \<Rightarrow> w1)))"

section \<open>The HTTP routes\<close>

text \<open>The response envelope \<open>{success, data?, error?, message?}\<close> with its status code.\<close>

record 'a response =
  http_status :: nat
  resp_success :: bool
  resp_data :: "'a option"
  resp_error :: "string option"
  resp_message :: "string option"

definition fail_response :: "nat \<Rightarrow> string \<Rightarrow> 'a response" where
  "fail_response code msg =
     \<lparr>http_status = code, resp_success = False, resp_data = None,
      resp_error = Some msg, resp_message = None\<rparr>"

definition ok_response :: "nat \<Rightarrow> 'a \<Rightarrow> string option \<Rightarrow> 'a response" where
  "ok_response code d msg =
     \<lparr>http_status = code, resp_success = True, resp_data = Some d,
      resp_error = None, resp_message = msg\<rparr>"

definition nonempty :: "string option \<Rightarrow> bool" where
  "nonempty s = (case s of None \<Rightarrow> False | Some x \<Rightarrow> x \<noteq> [])"

subsection \<open>POST /api/v1/notifications/token\<close>









subsection \<open>POST /api/v1/notifications/offers\<close>

text \<open>The recipient id of the body is a string or missing; the other fields are any value.\<close>

record offer_notification_request =
  body_offerId :: jsval
  body_recipientUserId :: "string option"
  body_senderUserId :: jsval
  body_senderName :: jsval
  body_itemName :: jsval
  body_message :: jsval



subsection \<open>GET /api/v1/items and DELETE /api/v1/items/:itemId\<close>

text \<open>
  The query parameters: \<open>page\<close> and \<open>limit\<close> are natural numbers (defaults 1 and 20),
  the filters are strings or missing.
\<close>

record items_query =
  q_page :: "nat option"
  q_limit :: "nat option"
  q_category :: "string option"
  q_search :: "string option"
  q_ownerId :: "string option"

record pagination =
  pg_page :: nat
  pg_limit :: nat
  pg_total :: nat
  pg_pages :: "nat option"

text \<open>
  The filter document built by the route: \<open>isAvailable: true\<close> always, and each of
  category, search (case-insensitive regular expression on name or description) and
  owner when the parameter is given.
\<close>

definition items_filter :: "env \<Rightarrow> items_query \<Rightarrow> item \<Rightarrow> bool" where
  "items_filter e q i =
     (isAvailable i \<and>
      (if nonempty (q_category q) then category i = the (q_category q) else True) \<and>
      (if nonempty (q_search q)
       then regex_match_i e (the (q_search q)) (item_name i) \<or>
            regex_match_i e (the (q_search q)) (description i)
       else True) \<and>
      (if nonempty (q_ownerId q) then ownerId i = the (q_ownerId q) else True))"

text \<open>
  \<open>Item.find(query).sort({createdAt: -1}).limit(limit * 1).skip((page - 1) * limit)\<close>:
  a limit of 0 means no limit; the store rejects a negative skip (the message text here
  stands for the driver's).
\<close>

definition find_items :: "env \<Rightarrow> items_query \<Rightarrow> world \<Rightarrow> error + item list" where
  "find_items e q w =
     (let page = (case q_page q of None \<Rightarrow> 1 | Some p \<Rightarrow> p);
          limit = (case q_limit q of None \<Rightarrow> 20 | Some l \<Rightarrow> l);
          sorted_items = rev (sort_key item_createdAt (filter (items_filter e q) (items w)))
      in case db_error e FindItems of
           Some msg \<Rightarrow> Inl (Error msg)
         | None \<Rightarrow>
             if limit = 0 then Inr sorted_items
             else if page = 0 then Inl (Error ''Skip value must be non-negative'')
             else Inr (take limit (drop ((page - 1) * limit) sorted_items)))"

definition get_items :: "env \<Rightarrow> items_query \<Rightarrow> world \<Rightarrow> (item list \<times> pagination) response" where
  "get_items e q w =
     (let page = (case q_page q of None \<Rightarrow> 1 | Some p \<Rightarrow> p);
          limit = (case q_limit q of None \<Rightarrow> 20 | Some l \<Rightarrow> l)
      in case find_items e q w of
           Inl err \<Rightarrow> fail_response 500 (message err)
         | Inr found \<Rightarrow>
             (case db_error e CountItems of
                Some msg \<Rightarrow> fail_response 500 msg
              | None \<Rightarrow>
                  (let total = length (filter (items_filter e q) (items w))
                   in ok_response 200
                        (found,
                         \<lparr>pg_page = page, pg_limit = limit, pg_total = total,
                          pg_pages = (if limit = 0 then None
                                      else Some ((total + limit - 1) div limit))\<rparr>)
                        None)))"

text \<open>
  \<open>Item.findOneAndUpdate({id}, {isAvailable: false, updatedAt: new Date()}, {new: true})\<close>
\<close>

definition soft_delete :: "nat \<Rightarrow> item \<Rightarrow> item" where
  "soft_delete t i = i\<lparr>isAvailable := False, item_updatedAt := t\<rparr>"

definition delete_item :: "env \<Rightarrow> string \<Rightarrow> world \<Rightarrow> item response \<times> world" where
  "delete_item e itemId w =
     (case db_error e (UpdateItem itemId) of
        Some msg \<Rightarrow> (fail_response 500 msg, w)
      | None \<Rightarrow>
          (case find_item w itemId of
             None \<Rightarrow> (fail_response 404 ''Item not found'', w)
           | Some i \<Rightarrow>
               (ok_response 200 (soft_delete (now e) i) None,
                w\<lparr>items := update_first (\<lambda>i. item_id i = itemId) (soft_delete (now e)) (items w)\<rparr>)))"

subsection \<open>POST /api/v1/offers\<close>

text \<open>
  The body of an offer creation: the fields of the schema that the notification reads,
  each a string or missing. \<open>new Offer(req.body)\<close> fills the defaults; \<open>save\<close> validates
  (the four required strings, the status among the schema's values), and the store
  rejects a second offer with the same id (the two message texts stand for the
  library's).
\<close>

record offer_request =
  new_id :: "string option"
  new_fromUserId :: "string option"
  new_toUserId :: "string option"
  new_requestedItemId :: "string option"
  new_offeredItemIds :: "string list"
  new_status :: "string option"
  new_message :: "string option"

definition offer_statuses :: "string list" where
  "offer_statuses = [''PENDING'', ''ACCEPTED'', ''REJECTED'', ''COUNTERED'', ''EXPIRED'', ''CANCELLED'']"

definition new_Offer :: "env \<Rightarrow> offer_request \<Rightarrow> error + offer" where
  "new_Offer e r =
     (if \<not> nonempty (new_id r) \<or> \<not> nonempty (new_fromUserId r) \<or>
         \<not> nonempty (new_toUserId r) \<or> \<not> nonempty (new_requestedItemId r) then
        Inl (Error ''Offer validation failed'')
      else if new_status r \<noteq> None \<and> the (new_status r) \<notin> set offer_statuses then
        Inl (Error ''Offer validation failed'')
      else
        Inr \<lparr>offer_id = the (new_id r),
             fromUserId = the (new_fromUserId r),
             toUserId = the (new_toUserId r),
             requestedItemId = the (new_requestedItemId r),
             offeredItemIds = new_offeredItemIds r,
             status = (case new_status r of None \<Rightarrow> ''PENDING'' | Some s \<Rightarrow> s),
             offer_message = new_message r,
             offer_createdAt = now e,
             offer_updatedAt = now e\<rparr>)"

definition save_offer :: "env \<Rightarrow> offer_request \<Rightarrow> world \<Rightarrow> error + (offer \<times> world)" where
  "save_offer e r w =
     (case new_Offer e r of
        Inl err \<Rightarrow> Inl err
      | Inr off \<Rightarrow>
          (case db_error e SaveOffer of
             Some msg \<Rightarrow> Inl (Error msg)
           | None \<Rightarrow>
               if offer_id off \<in> set (map offer_id (offers w)) then
                 Inl (Error ''E11000 duplicate key error'')
               else Inr (off, w\<lparr>offers := offers w @ [off]\<rparr>)))"

text \<open>
  The route saves, starts \<open>queueOfferNotificationForOffer\<close> without awaiting it, and
  answers 201; the world returned is the one after the notification has run.
\<close>

definition post_offers :: "env \<Rightarrow> offer_request \<Rightarrow> world \<Rightarrow> offer response \<times> world" where
  "post_offers e r w =
     (case save_offer e r w of
        Inl err \<Rightarrow> (fail_response 500 (message err), w)
      | Inr (off, w1) \<Rightarrow>
          (ok_response 201 off None, queueOfferNotificationForOffer e (Some off) w1))"

section \<open>Notions used in the statements\<close>

text \<open>
  The batches of an offer notification and the message built for one of them, as
  \<open>sendOfferNotification\<close> passes them to \<open>sendPushNotification\<close> (the body is the
  one \<open>offer_body\<close> returns).
\<close>

definition offer_batches :: "offer_notification \<Rightarrow> world \<Rightarrow> jsval list list" where
  "offer_batches n w = batches_of (Some (recipientTokens w (recipientUserId n)))"

definition offer_batch_message :: "offer_notification \<Rightarrow> world \<Rightarrow> jsval list \<Rightarrow> multicast_message" where
  "offer_batch_message n w batch =
     build_message
       (offer_push_args n (recipientTokens w (recipientUserId n)) (projr (offer_body n))) batch"


text \<open>
  The notification body in the words of the specification: the message truncated to
  140 characters or, when no message is given, \<open>New pitch on <itemName>\<close>. It is
  compared below with the body \<open>sendOfferNotification\<close> sends.
\<close>

definition spec_body :: "offer_notification \<Rightarrow> string" where
  "spec_body n =
     (if truthy (message_text n) then substring0 140 (toString (message_text n))
      else ''New pitch on '' @ toString (itemName n))"

fun is_JStr :: "jsval \<Rightarrow> bool" where
  "is_JStr (JStr s) = True"
| "is_JStr v = False"

text \<open>The text \<open>buildDataPayload\<close> stores for a value.\<close>

definition data_text :: "jsval \<Rightarrow> string" where
  "data_text v = (if v = JUndefined \<or> v = JNull then [] else toString v)"



section \<open>Sample data\<close>

text \<open>Concrete environments, worlds and requests on which the theorems below are instantiated.\<close>

definition accept_all :: "multicast_message \<Rightarrow> error + batch_response" where
  "accept_all m =
     Inr \<lparr>successCount = length (tokens m), failureCount = 0,
          responses = map (\<lambda>t. \<lparr>success = True, error_code = None\<rparr>) (tokens m)\<rparr>"

definition reject_stale :: "multicast_message \<Rightarrow> error + batch_response" where
  "reject_stale m =
     (let rs = map (\<lambda>t. if t = JStr ''stale-token''
                         then \<lparr>success = False,
                               error_code = Some ''messaging/registration-token-not-registered''\<rparr>
                         else \<lparr>success = True, error_code = None\<rparr>) (tokens m)
      in Inr \<lparr>successCount = length (filter success rs),
              failureCount = length (filter (\<lambda>r. \<not> success r) rs),
              responses = rs\<rparr>)"

definition sample_env :: env where
  "sample_env =
     \<lparr>FIREBASE_SERVICE_ACCOUNT_JSON = Some ''service-account'',
      FIREBASE_SERVICE_ACCOUNT = None,
      JSON_parse = (\<lambda>s. if s = ''service-account'' then Some (JsonObject []) else None),
      base64_decode = (\<lambda>s. s),
      initializeApp_ok = (\<lambda>c. True),
      messaging_ok = True,
      sendEachForMulticast = accept_all,
      db_error = (\<lambda>op. None),
      now = 1000,
      regex_match_i = (\<lambda>pattern s. str_includes s pattern)\<rparr>"

definition empty_world :: world where
  "empty_world =
     \<lparr>users = [], items = [], offers = [], firebaseMessaging = False, admin_apps = 0,
      sent = [], console = []\<rparr>"

definition tokens501 :: "jsval list" where
  "tokens501 = map (\<lambda>n. JStr (replicate (Suc n) CHR ''t'')) [0..<501]"

definition sample_push_args :: "jsval list \<Rightarrow> push_args" where
  "sample_push_args ts =
     \<lparr>arg_tokens = Some ts,
      arg_notification = \<lparr>title = ''Ann sent you an offer'', body = ''hello''\<rparr>,
      arg_data = [(''type'', JStr ''offer''), (''offerId'', JNull)],
      arg_android = \<lparr>opt_channelId = JUndefined, opt_tag = JStr ''offer_1'',
                     opt_apnsCategory = JUndefined\<rparr>\<rparr>"

definition bob :: user where
  "bob =
     \<lparr>user_id = ''u1'', user_name = ''Bob'', email = ''bob@example.com'',
      fcmTokens = [JStr ''tok-1'', JStr ''stale-token'', JStr ''tok-1'', JNull],
      deviceTokens = [], lastActive = 0, user_createdAt = 0, user_updatedAt = 0\<rparr>"

definition ann :: user where
  "ann =
     \<lparr>user_id = ''u2'', user_name = ''Ann'', email = ''ann@example.com'',
      fcmTokens = [], deviceTokens = [], lastActive = 0, user_createdAt = 0,
      user_updatedAt = 0\<rparr>"

definition guitar :: item where
  "guitar =
     \<lparr>item_id = ''i1'', item_name = ''Guitar'', description = ''Six strings'',
      category = ''Music'', condition = ''GOOD'', images = [], ownerId = ''u1'',
      isAvailable = True, item_createdAt = 5, item_updatedAt = 5\<rparr>"

definition sample_world :: world where
  "sample_world = empty_world\<lparr>users := [bob, ann], items := [guitar]\<rparr>"

definition stale_env :: env where
  "stale_env = sample_env\<lparr>sendEachForMulticast := reject_stale\<rparr>"

definition prune_fail_env :: env where
  "prune_fail_env =
     stale_env\<lparr>db_error := (\<lambda>op. if op = PullUserTokens ''u1'' then Some ''write failed'' else None)\<rparr>"

definition unconfigured_env :: env where
  "unconfigured_env = sample_env\<lparr>FIREBASE_SERVICE_ACCOUNT_JSON := Some ''not-json''\<rparr>"

definition provider_down_env :: env where
  "provider_down_env =
     sample_env\<lparr>sendEachForMulticast := (\<lambda>m. Inl (Error ''provider unavailable''))\<rparr>"

definition sample_notification :: offer_notification where
  "sample_notification =
     \<lparr>offerId = JStr ''o1'', recipientUserId = ''u1'', senderUserId = JStr ''u2'',
      senderName = JStr ''Ann'', itemName = JStr ''Guitar'', message_text = JStr '' hi''\<rparr>"

definition carl :: user where
  "carl =
     \<lparr>user_id = ''u3'', user_name = ''Carl'', email = ''carl@example.com'',
      fcmTokens = [JNull, JStr [], JUndefined], deviceTokens = [], lastActive = 0,
      user_createdAt = 0, user_updatedAt = 0\<rparr>"

definition falsy_world :: world where
  "falsy_world = empty_world\<lparr>users := [carl]\<rparr>"

definition notification_to :: "string \<Rightarrow> offer_notification" where
  "notification_to uid = sample_notification\<lparr>recipientUserId := uid\<rparr>"

definition sample_offer_request :: offer_notification_request where
  "sample_offer_request =
     \<lparr>body_offerId = JStr ''o1'', body_recipientUserId = Some ''u1'',
      body_senderUserId = JStr ''u2'', body_senderName = JStr ''Ann'',
      body_itemName = JUndefined, body_message = JUndefined\<rparr>"


definition lookup_fail_env :: env where
  "lookup_fail_env =
     sample_env\<lparr>db_error := (\<lambda>op. if op = FindUser ''u2'' then Some ''connection lost'' else None)\<rparr>"

definition sample_offer_body :: offer_request where
  "sample_offer_body =
     \<lparr>new_id = Some ''o1'', new_fromUserId = Some ''u2'', new_toUserId = Some ''u1'',
      new_requestedItemId = Some ''i1'', new_offeredItemIds = [], new_status = None,
      new_message = Some ''Swap?''\<rparr>"

definition sample_offer :: offer where
  "sample_offer =
     \<lparr>offer_id = ''o1'', fromUserId = ''u2'', toUserId = ''u1'', requestedItemId = ''i1'',
      offeredItemIds = [], status = ''PENDING'', offer_message = Some ''Swap?'',
      offer_createdAt = 1000, offer_updatedAt = 1000\<rparr>"

definition default_query :: items_query where
  "default_query =
     \<lparr>q_page = None, q_limit = None, q_category = None, q_search = None, q_ownerId = None\<rparr>"

definition amp :: item where
  "amp =
     \<lparr>item_id = ''i2'', item_name = ''Amp'', description = ''Loud'',
      category = ''Music'', condition = ''FAIR'', images = [], ownerId = ''u2'',
      isAvailable = True, item_createdAt = 7, item_updatedAt = 7\<rparr>"

definition shop_world :: world where
  "shop_world = sample_world\<lparr>items := [guitar, amp]\<rparr>"


text \<open>
  A provider that fails three marked tokens, two of them with codes of a permanently
  invalid token and one with another code, and a list of 504 tokens holding them.
\<close>

definition marked_response :: "jsval \<Rightarrow> send_response" where
  "marked_response t =
     (if t = JStr ''stale-token''
      then \<lparr>success = False, error_code = Some ''messaging/registration-token-not-registered''\<rparr>
      else if t = JStr ''dead-token''
      then \<lparr>success = False, error_code = Some ''messaging/invalid-registration-token''\<rparr>
      else if t = JStr ''busy-token''
      then \<lparr>success = False, error_code = Some ''messaging/server-unavailable''\<rparr>
      else \<lparr>success = True, error_code = None\<rparr>)"

definition reject_marked :: "multicast_message \<Rightarrow> error + batch_response" where
  "reject_marked m =
     (let rs = map marked_response (tokens m)
      in Inr \<lparr>successCount = length (filter success rs),
              failureCount = length (filter (\<lambda>r. \<not> success r) rs),
              responses = rs\<rparr>)"

definition marked_env :: env where
  "marked_env = sample_env\<lparr>sendEachForMulticast := reject_marked\<rparr>"

definition tokens504 :: "jsval list" where
  "tokens504 =
     JStr ''stale-token'' # take 499 tokens501 @
     JStr ''dead-token'' # JStr ''busy-token'' # drop 499 tokens501"

section \<open>Deduplication and batching\<close>

declare chunk_loop.simps [simp del]

lemma set_set_add_all: "set (set_add_all seen xs) = set seen \<union> set xs"
  by (induction xs arbitrary: seen) auto

lemma distinct_set_add_all: "distinct seen \<Longrightarrow> distinct (set_add_all seen xs)"
  by (induction xs arbitrary: seen) auto

lemma set_add_all_distinct_id:
  "distinct (seen @ xs) \<Longrightarrow> set_add_all seen xs = seen @ xs"
  by (induction xs arbitrary: seen) auto

lemma new_Set_distinct_id: "distinct xs \<Longrightarrow> new_Set xs = xs"
  by (simp add: new_Set_def set_add_all_distinct_id)

lemma chunk_loop_acc: "chunk_loop i xs bs = bs @ chunk_loop i xs []"
proof (induction "length xs - i" arbitrary: i bs rule: less_induct)
  case less
  show ?case
  proof (cases "i < length xs")
    case True
    let ?t = "take chunkSize (drop i xs)"
    have m: "length xs - (i + chunkSize) < length xs - i"
      using True by (simp add: chunkSize_def)
    have "chunk_loop i xs bs = chunk_loop (i + chunkSize) xs (bs @ [?t])"
      using True by (subst chunk_loop.simps) simp
    also have "\<dots> = (bs @ [?t]) @ chunk_loop (i + chunkSize) xs []"
      by (rule less[OF m])
    also have "\<dots> = bs @ chunk_loop (i + chunkSize) xs ([] @ [?t])"
      using less[OF m, of "[?t]"] by simp
    also have "\<dots> = bs @ chunk_loop i xs []"
      using True by (subst (2) chunk_loop.simps) simp
    finally show ?thesis .
  next
    case False
    then show ?thesis by (subst chunk_loop.simps, subst (2) chunk_loop.simps) simp
  qed
qed

lemma chunk_loop_step:
  "i < length xs \<Longrightarrow>
   chunk_loop i xs [] = take chunkSize (drop i xs) # chunk_loop (i + chunkSize) xs []"
  by (subst chunk_loop.simps, subst chunk_loop_acc) simp

lemma chunk_loop_done: "\<not> i < length xs \<Longrightarrow> chunk_loop i xs [] = []"
  by (subst chunk_loop.simps) simp

lemma concat_chunk_loop: "concat (chunk_loop i xs []) = drop i xs"
proof (induction "length xs - i" arbitrary: i rule: less_induct)
  case less
  show ?case
  proof (cases "i < length xs")
    case True
    have m: "length xs - (i + chunkSize) < length xs - i"
      using True by (simp add: chunkSize_def)
    have "take chunkSize (drop i xs) @ drop (i + chunkSize) xs = drop i xs"
      by (metis add.commute append_take_drop_id drop_drop)
    then show ?thesis
      using True less[OF m] by (simp add: chunk_loop_step)
  next
    case False
    then show ?thesis by (simp add: chunk_loop_done)
  qed
qed

lemma chunk_loop_sizes:
  "b \<in> set (chunk_loop i xs []) \<Longrightarrow> b \<noteq> [] \<and> length b \<le> chunkSize"
proof (induction "length xs - i" arbitrary: i rule: less_induct)
  case less
  show ?case
  proof (cases "i < length xs")
    case True
    have m: "length xs - (i + chunkSize) < length xs - i"
      using True by (simp add: chunkSize_def)
    from less.prems True
    consider "b = take chunkSize (drop i xs)" | "b \<in> set (chunk_loop (i + chunkSize) xs [])"
      by (auto simp: chunk_loop_step)
    then show ?thesis
    proof cases
      case 1
      then show ?thesis using True by (simp add: chunkSize_def)
    next
      case 2
      then show ?thesis by (rule less.hyps[OF m])
    qed
  next
    case False
    then show ?thesis using less.prems by (simp add: chunk_loop_done)
  qed
qed

lemma nth_chunk_loop:
  "k < length (chunk_loop i xs []) \<Longrightarrow>
   chunk_loop i xs [] ! k = take chunkSize (drop (i + k * chunkSize) xs)"
proof (induction k arbitrary: i)
  case 0
  then have "i < length xs" by (cases "i < length xs") (simp_all add: chunk_loop_done)
  then show ?case by (simp add: chunk_loop_step)
next
  case (Suc k)
  then have lt: "i < length xs" by (cases "i < length xs") (simp_all add: chunk_loop_done)
  with Suc.prems have "k < length (chunk_loop (i + chunkSize) xs [])"
    by (simp add: chunk_loop_step)
  from Suc.IH[OF this] lt show ?case
    by (simp add: chunk_loop_step ac_simps)
qed

lemma chunk_loop_501:
  assumes "length xs = 501"
  shows "map length (chunk_loop 0 xs []) = [500, 1]"
proof -
  have a: "chunk_loop 0 xs [] = take chunkSize (drop 0 xs) # chunk_loop (0 + chunkSize) xs []"
    by (rule chunk_loop_step) (simp add: assms)
  have b: "chunk_loop (0 + chunkSize) xs [] =
           take chunkSize (drop (0 + chunkSize) xs) # chunk_loop (0 + chunkSize + chunkSize) xs []"
    by (rule chunk_loop_step) (simp add: assms chunkSize_def)
  have c: "chunk_loop (0 + chunkSize + chunkSize) xs [] = []"
    by (rule chunk_loop_done) (simp add: assms chunkSize_def)
  show ?thesis
    unfolding a b c by (simp add: assms chunkSize_def)
qed

lemma collect_invalid_acc:
  "collect_invalid batch i rs acc = acc @ collect_invalid batch i rs []"
proof (induction rs arbitrary: i acc)
  case Nil
  show ?case by simp
next
  case (Cons r rs)
  show ?case
    using Cons[of "Suc i" "acc @ [js_index batch i]"] Cons[of "Suc i" "[js_index batch i]"]
          Cons[of "Suc i" acc]
    by simp
qed

lemma send_batches_ok:
  assumes "\<forall>b \<in> set bs. \<not> isl (sendEachForMulticast e (build_message a b))"
  shows "send_batches e a bs acc w =
     (Inr \<lparr>res_successCount = res_successCount acc +
              sum_list (map (\<lambda>b. successCount (projr (sendEachForMulticast e (build_message a b)))) bs),
           res_failureCount = res_failureCount acc +
              sum_list (map (\<lambda>b. failureCount (projr (sendEachForMulticast e (build_message a b)))) bs),
           invalidTokens = invalidTokens acc @
              concat (map (\<lambda>b. collect_invalid b 0
                 (responses (projr (sendEachForMulticast e (build_message a b)))) []) bs)\<rparr>,
      w\<lparr>sent := sent w @ map (build_message a) bs\<rparr>)"
  using assms
proof (induction bs arbitrary: acc w)
  case Nil
  show ?case by simp
next
  case (Cons b bs)
  from Cons.prems obtain resp where r: "sendEachForMulticast e (build_message a b) = Inr resp"
    by (cases "sendEachForMulticast e (build_message a b)") auto
  from Cons.prems have rest: "\<forall>b \<in> set bs. \<not> isl (sendEachForMulticast e (build_message a b))"
    by simp
  show ?case
    by (simp add: r Let_def Cons.IH[OF rest] collect_invalid_acc[of b 0 "responses resp" "invalidTokens acc"])
qed

lemma send_batches_fail:
  assumes "\<exists>b \<in> set bs. isl (sendEachForMulticast e (build_message a b))"
  shows "isl (fst (send_batches e a bs acc w))"
  using assms
proof (induction bs arbitrary: acc w)
  case Nil
  then show ?case by simp
next
  case (Cons b bs)
  show ?case
  proof (cases "sendEachForMulticast e (build_message a b)")
    case (Inl err)
    then show ?thesis by (simp add: Let_def)
  next
    case (Inr resp)
    with Cons.prems have "\<exists>b \<in> set bs. isl (sendEachForMulticast e (build_message a b))" by auto
    from Cons.IH[OF this] show ?thesis by (simp add: Inr Let_def)
  qed
qed

lemma send_batches_sent_prefix:
  "\<exists>k \<le> length bs. sent (snd (send_batches e a bs acc w)) = sent w @ map (build_message a) (take k bs)"
proof (induction bs arbitrary: acc w)
  case Nil
  show ?case by simp
next
  case (Cons b bs)
  show ?case
  proof (cases "sendEachForMulticast e (build_message a b)")
    case (Inl err)
    have "sent (snd (send_batches e a (b # bs) acc w)) = sent w @ map (build_message a) (take 1 (b # bs))"
      by (simp add: Inl Let_def)
    then show ?thesis by (metis One_nat_def Suc_leI length_Cons zero_less_Suc)
  next
    case (Inr resp)
    let ?acc = "\<lparr>res_successCount = res_successCount acc + successCount resp,
                res_failureCount = res_failureCount acc + failureCount resp,
                invalidTokens = collect_invalid b 0 (responses resp) (invalidTokens acc)\<rparr>"
    let ?w = "w\<lparr>sent := sent w @ [build_message a b]\<rparr>"
    obtain k where "k \<le> length bs"
      "sent (snd (send_batches e a bs ?acc ?w)) = sent ?w @ map (build_message a) (take k bs)"
      using Cons.IH[of ?acc ?w] by blast
    then have "Suc k \<le> length (b # bs) \<and>
       sent (snd (send_batches e a (b # bs) acc w)) = sent w @ map (build_message a) (take (Suc k) (b # bs))"
      by (simp add: Inr Let_def)
    then show ?thesis by blast
  qed
qed

lemma send_batches_frame:
  "users (snd (send_batches e a bs acc w)) = users w \<and>
   items (snd (send_batches e a bs acc w)) = items w \<and>
   offers (snd (send_batches e a bs acc w)) = offers w \<and>
   console (snd (send_batches e a bs acc w)) = console w \<and>
   firebaseMessaging (snd (send_batches e a bs acc w)) = firebaseMessaging w \<and>
   admin_apps (snd (send_batches e a bs acc w)) = admin_apps w"
  by (induction bs arbitrary: acc w) (auto simp: Let_def split: sum.splits)

lemma getFirebaseMessaging_frame:
  "users (snd (getFirebaseMessaging e w)) = users w \<and>
   items (snd (getFirebaseMessaging e w)) = items w \<and>
   offers (snd (getFirebaseMessaging e w)) = offers w \<and>
   sent (snd (getFirebaseMessaging e w)) = sent w"
  by (simp add: getFirebaseMessaging_def initializeFirebaseMessaging_def parseFirebaseCredential_def
        Let_def split: option.splits prod.splits)

lemma batches_of_empty: "uniqueTokens ts = [] \<Longrightarrow> batches_of ts = []"
  by (simp add: batches_of_def chunk_loop_done)

lemma sendPushNotification_configured:
  assumes "getFirebaseMessaging e w = (True, w1)"
  shows "sendPushNotification e a w =
     send_batches e a (batches_of (arg_tokens a))
       \<lparr>res_successCount = 0, res_failureCount = 0, invalidTokens = []\<rparr> w1"
  by (simp add: sendPushNotification_def assms batches_of_empty)

lemma sendPushNotification_unconfigured:
  assumes "getFirebaseMessaging e w = (False, w1)"
  shows "sendPushNotification e a w = (Inl not_configured, w1)"
  by (simp add: sendPushNotification_def assms)

text \<open>
  Claim C2. \<open>sendPushNotification\<close> drops the falsy tokens, deduplicates the rest
  (\<open>uniqueTokens\<close> has no repetition and the same members) and cuts the deduplicated
  list into consecutive batches: the batches concatenate to the deduplicated list, the
  \<open>k\<close>-th batch is the slice of 500 tokens starting at \<open>k * 500\<close>, no batch is empty
  or longer than 500, and 501 distinct tokens give two batches of sizes 500 and 1. On a
  configured transport whose provider answers every batch, the messages handed to the
  provider are exactly one per batch, in order.
\<close>

theorem sendPushNotification_dedupes_then_batches:
  "distinct (uniqueTokens ts) \<and>
   set (uniqueTokens ts) = {t \<in> set (case ts of None \<Rightarrow> [] | Some xs \<Rightarrow> xs). truthy t} \<and>
   concat (batches_of ts) = uniqueTokens ts \<and>
   (\<forall>b \<in> set (batches_of ts). b \<noteq> [] \<and> length b \<le> 500) \<and>
   (\<forall>k < length (batches_of ts).
      batches_of ts ! k = take 500 (drop (k * 500) (uniqueTokens ts))) \<and>
   (distinct xs \<and> list_all truthy xs \<and> length xs = 501 \<longrightarrow>
      map length (batches_of (Some xs)) = [500, 1]) \<and>
   (fst (getFirebaseMessaging e w) \<and> arg_tokens a = ts \<and>
    (\<forall>b \<in> set (batches_of ts). \<not> isl (sendEachForMulticast e (build_message a b))) \<longrightarrow>
      sent (snd (sendPushNotification e a w)) = sent w @ map (build_message a) (batches_of ts))"
proof -
  have d: "distinct (uniqueTokens ts)"
    by (simp add: uniqueTokens_def new_Set_def distinct_set_add_all)
  have s: "set (uniqueTokens ts) = {t \<in> set (case ts of None \<Rightarrow> [] | Some xs \<Rightarrow> xs). truthy t}"
    by (auto simp: uniqueTokens_def new_Set_def set_set_add_all)
  have c: "concat (batches_of ts) = uniqueTokens ts"
    by (simp add: batches_of_def concat_chunk_loop)
  have z: "\<forall>b \<in> set (batches_of ts). b \<noteq> [] \<and> length b \<le> 500"
    using chunk_loop_sizes[of _ 0 "uniqueTokens ts"] by (simp add: batches_of_def chunkSize_def)
  have n: "\<forall>k < length (batches_of ts).
      batches_of ts ! k = take 500 (drop (k * 500) (uniqueTokens ts))"
    using nth_chunk_loop[of _ 0 "uniqueTokens ts"] by (simp add: batches_of_def chunkSize_def)
  have f: "distinct xs \<and> list_all truthy xs \<and> length xs = 501 \<longrightarrow>
      map length (batches_of (Some xs)) = [500, 1]"
  proof
    assume h: "distinct xs \<and> list_all truthy xs \<and> length xs = 501"
    then have "filter truthy xs = xs" by (simp add: list_all_iff)
    with h have "uniqueTokens (Some xs) = xs"
      by (simp add: uniqueTokens_def new_Set_distinct_id)
    with h show "map length (batches_of (Some xs)) = [500, 1]"
      by (simp add: batches_of_def chunk_loop_501)
  qed
  have p: "fst (getFirebaseMessaging e w) \<and> arg_tokens a = ts \<and>
    (\<forall>b \<in> set (batches_of ts). \<not> isl (sendEachForMulticast e (build_message a b))) \<longrightarrow>
      sent (snd (sendPushNotification e a w)) = sent w @ map (build_message a) (batches_of ts)"
  proof
    assume h: "fst (getFirebaseMessaging e w) \<and> arg_tokens a = ts \<and>
      (\<forall>b \<in> set (batches_of ts). \<not> isl (sendEachForMulticast e (build_message a b)))"
    obtain w1 where g: "getFirebaseMessaging e w = (True, w1)"
      using h by (cases "getFirebaseMessaging e w") auto
    have w1: "sent w1 = sent w"
      using getFirebaseMessaging_frame[of e w] by (simp add: g)
    show "sent (snd (sendPushNotification e a w)) = sent w @ map (build_message a) (batches_of ts)"
      using h by (simp add: sendPushNotification_configured[OF g] send_batches_ok w1)
  qed
  from d s c z n f p show ?thesis by blast
qed

lemma tokens501_facts:
  "distinct tokens501 \<and> list_all truthy tokens501 \<and> length tokens501 = 501"
proof -
  have "inj_on (\<lambda>n. JStr (replicate (Suc n) CHR ''t'')) (set [0..<501])"
    by (rule inj_onI) (metis jsval.inject(2) length_replicate nat.inject)
  then have "distinct tokens501"
    unfolding tokens501_def by (simp add: distinct_map)
  moreover have "list_all truthy tokens501"
    by (simp add: tokens501_def list_all_iff)
  moreover have "length tokens501 = 501"
    by (simp add: tokens501_def)
  ultimately show ?thesis by blast
qed

lemma sample_env_configured:
  "getFirebaseMessaging sample_env empty_world =
     (True, empty_world\<lparr>admin_apps := 1, console := [FirebaseInitialized], firebaseMessaging := True\<rparr>)"
  by (simp add: getFirebaseMessaging_def initializeFirebaseMessaging_def parseFirebaseCredential_def
        getRawFirebaseCredential_def sample_env_def empty_world_def Let_def)

theorem sendPushNotification_dedupes_then_batches_witness:
  "distinct tokens501 \<and> list_all truthy tokens501 \<and> length tokens501 = 501 \<and>
   map length (batches_of (Some tokens501)) = [500, 1] \<and>
   list_all (\<lambda>b. b \<noteq> [] \<and> length b \<le> 500) (batches_of (Some tokens501)) \<and>
   fst (getFirebaseMessaging sample_env empty_world) \<and>
   map (length \<circ> tokens) (sent (snd (sendPushNotification sample_env (sample_push_args tokens501) empty_world)))
     = [500, 1]"
proof -
  let ?a = "sample_push_args tokens501"
  have ok: "\<forall>b \<in> set (batches_of (Some tokens501)).
      \<not> isl (sendEachForMulticast sample_env (build_message ?a b))"
    by (simp add: sample_env_def accept_all_def)
  have g: "fst (getFirebaseMessaging sample_env empty_world)"
    by (simp add: sample_env_configured)
  have a: "arg_tokens ?a = Some tokens501"
    by (simp add: sample_push_args_def)
  note t = sendPushNotification_dedupes_then_batches
    [of "Some tokens501" tokens501 sample_env empty_world ?a]
  from t tokens501_facts have m: "map length (batches_of (Some tokens501)) = [500, 1]" by blast
  from t g a ok have
    "sent (snd (sendPushNotification sample_env ?a empty_world)) =
     sent empty_world @ map (build_message ?a) (batches_of (Some tokens501))" by blast
  then have "map (length \<circ> tokens) (sent (snd (sendPushNotification sample_env ?a empty_world))) =
     map length (batches_of (Some tokens501))"
    by (simp add: empty_world_def build_message_def comp_def)
  with m tokens501_facts t g show ?thesis by (simp add: list_all_iff)
qed

lemma collect_invalid_positions:
  "collect_invalid batch i rs [] =
   map (\<lambda>k. js_index batch (i + k))
     (filter (\<lambda>k. \<not> success (rs ! k) \<and> is_invalid_code (error_code (rs ! k))) [0..<length rs])"
proof (induction rs arbitrary: i)
  case Nil
  show ?case by simp
next
  case (Cons r rs)
  have u: "[0..<length (r # rs)] = 0 # map Suc [0..<length rs]"
    by (simp add: upt_conv_Cons map_Suc_upt del: upt_Suc)
  have c: "collect_invalid batch i (r # rs) [] =
        (if \<not> success r \<and> is_invalid_code (error_code r) then [js_index batch i] else []) @
        collect_invalid batch (Suc i) rs []"
    using collect_invalid_acc[of batch "Suc i" rs "[js_index batch i]"] by simp
  show ?case
    unfolding c u Cons.IH[of "Suc i"]
    by (simp add: filter_map comp_def)
qed

section \<open>Aggregation over the batches\<close>

lemma collect_invalid_all_ok:
  "collect_invalid b i (map (\<lambda>t. \<lparr>success = True, error_code = None\<rparr>) ts) acc = acc"
  by (induction ts arbitrary: i acc) auto

text \<open>
  Claim C5. \<open>sendPushNotification\<close> returns a result exactly when the transport is
  configured and the provider answers every batch, and the result is then the record
  \<open>{successCount, failureCount, invalidTokens}\<close> whose counts are the sums of the
  counts the provider reported per batch and whose invalid tokens are, batch after
  batch, the tokens at the positions of the responses that failed with a code of a
  permanently invalid token.
\<close>

theorem sendPushNotification_aggregates:
  "fst (sendPushNotification e a w) = Inr r \<longleftrightarrow>
     fst (getFirebaseMessaging e w) \<and>
     (\<forall>b \<in> set (batches_of (arg_tokens a)). \<not> isl (sendEachForMulticast e (build_message a b))) \<and>
     r = \<lparr>res_successCount =
            sum_list (map (\<lambda>b. successCount (projr (sendEachForMulticast e (build_message a b))))
                       (batches_of (arg_tokens a))),
          res_failureCount =
            sum_list (map (\<lambda>b. failureCount (projr (sendEachForMulticast e (build_message a b))))
                       (batches_of (arg_tokens a))),
          invalidTokens =
            concat (map (\<lambda>b. map (js_index b)
                 (filter (\<lambda>k. \<not> success (responses (projr (sendEachForMulticast e (build_message a b))) ! k) \<and>
                             is_invalid_code (error_code
                               (responses (projr (sendEachForMulticast e (build_message a b))) ! k)))
                    [0..<length (responses (projr (sendEachForMulticast e (build_message a b))))]))
              (batches_of (arg_tokens a)))\<rparr>"
proof (cases "getFirebaseMessaging e w")
  case (Pair c w1)
  show ?thesis
  proof (cases c)
    case False
    with Pair show ?thesis
      by (simp add: sendPushNotification_unconfigured)
  next
    case True
    with Pair have g: "getFirebaseMessaging e w = (True, w1)" by simp
    show ?thesis
    proof (cases "\<forall>b \<in> set (batches_of (arg_tokens a)).
                    \<not> isl (sendEachForMulticast e (build_message a b))")
      case ok: True
      show ?thesis
        using ok
        by (auto simp: sendPushNotification_configured[OF g] send_batches_ok g
                       collect_invalid_positions)
    next
      case bad: False
      then have "\<exists>b \<in> set (batches_of (arg_tokens a)).
                    isl (sendEachForMulticast e (build_message a b))" by blast
      from send_batches_fail[OF this]
      have "isl (fst (sendPushNotification e a w))"
        by (simp add: sendPushNotification_configured[OF g])
      with bad show ?thesis by auto
    qed
  qed
qed

lemma tokens501_plain:
  "t \<in> set tokens501 \<Longrightarrow>
   t \<noteq> JStr ''stale-token'' \<and> t \<noteq> JStr ''dead-token'' \<and> t \<noteq> JStr ''busy-token''"
  by (auto simp: tokens501_def)

lemma marked_response_plain:
  assumes "set ts \<subseteq> set tokens501"
  shows "map marked_response ts = map (\<lambda>t. \<lparr>success = True, error_code = None\<rparr>) ts"
proof (rule map_cong[OF refl])
  fix t assume "t \<in> set ts"
  with assms have "t \<in> set tokens501" by blast
  from tokens501_plain[OF this] show "marked_response t = \<lparr>success = True, error_code = None\<rparr>"
    by (simp add: marked_response_def)
qed

lemma chunk_loop_two:
  assumes "chunkSize < length xs" and "length xs \<le> 2 * chunkSize"
  shows "chunk_loop 0 xs [] = [take chunkSize xs, drop chunkSize xs]"
proof -
  have a: "chunk_loop 0 xs [] = take chunkSize (drop 0 xs) # chunk_loop (0 + chunkSize) xs []"
    by (rule chunk_loop_step) (use assms in linarith)
  have b: "chunk_loop (0 + chunkSize) xs [] =
           take chunkSize (drop (0 + chunkSize) xs) # chunk_loop (0 + chunkSize + chunkSize) xs []"
    by (rule chunk_loop_step) (use assms in simp)
  have c: "chunk_loop (0 + chunkSize + chunkSize) xs [] = []"
    by (rule chunk_loop_done) (use assms in simp)
  show ?thesis
    unfolding a b c using assms by simp
qed

lemma tokens504_batches:
  "batches_of (Some tokens504) =
     [JStr ''stale-token'' # take 499 tokens501,
      JStr ''dead-token'' # JStr ''busy-token'' # drop 499 tokens501]"
proof -
  let ?A = "take 499 tokens501" and ?B = "drop 499 tokens501"
  have len: "length tokens501 = 501" using tokens501_facts by simp
  have d501: "distinct tokens501" using tokens501_facts by simp
  have "distinct (?A @ ?B)" using d501 by simp
  then have AB: "distinct ?A \<and> distinct ?B \<and> set ?A \<inter> set ?B = {}"
    unfolding distinct_append .
  have sub: "set ?A \<subseteq> set tokens501" "set ?B \<subseteq> set tokens501"
    by (auto dest: in_set_takeD in_set_dropD)
  have plainA: "\<And>t. t \<in> set ?A \<Longrightarrow>
      t \<noteq> JStr ''stale-token'' \<and> t \<noteq> JStr ''dead-token'' \<and> t \<noteq> JStr ''busy-token''"
    using sub(1) tokens501_plain by blast
  have plainB: "\<And>t. t \<in> set ?B \<Longrightarrow>
      t \<noteq> JStr ''stale-token'' \<and> t \<noteq> JStr ''dead-token'' \<and> t \<noteq> JStr ''busy-token''"
    using sub(2) tokens501_plain by blast
  have dist: "distinct tokens504"
    using AB plainA plainB unfolding tokens504_def by auto
  have "list_all truthy tokens501" using tokens501_facts by simp
  then have tr: "\<And>t. t \<in> set tokens501 \<Longrightarrow> truthy t" by (simp add: list_all_iff)
  have "filter truthy ?A = ?A" "filter truthy ?B = ?B"
    using sub tr by (auto simp: filter_id_conv)
  then have truthy504: "filter truthy tokens504 = tokens504"
    by (simp add: tokens504_def)
  have u: "uniqueTokens (Some tokens504) = tokens504"
    by (simp add: uniqueTokens_def truthy504 new_Set_distinct_id dist)
  have lenA: "length ?A = 499" using len by simp
  have l504: "length tokens504 = 504"
    using len by (simp add: tokens504_def)
  have split: "tokens504 = (JStr ''stale-token'' # ?A) @ (JStr ''dead-token'' # JStr ''busy-token'' # ?B)"
    by (simp add: tokens504_def)
  have t: "take chunkSize tokens504 = JStr ''stale-token'' # ?A"
    unfolding split using lenA by (simp add: chunkSize_def)
  have dr: "drop chunkSize tokens504 = JStr ''dead-token'' # JStr ''busy-token'' # ?B"
    unfolding split using lenA by (simp add: chunkSize_def)
  have "chunk_loop 0 tokens504 [] = [take chunkSize tokens504, drop chunkSize tokens504]"
    by (rule chunk_loop_two) (simp_all add: l504 chunkSize_def)
  then show ?thesis
    by (simp add: batches_of_def u t dr)
qed

lemma ok_responses_counts:
  "length (filter success (map (\<lambda>t. \<lparr>success = True, error_code = None\<rparr>) ts)) = length ts"
  "filter (\<lambda>r. \<not> success r) (map (\<lambda>t. \<lparr>success = True, error_code = None\<rparr>) ts) = []"
  by (induction ts) auto

lemma reject_marked_first:
  "sendEachForMulticast marked_env
     (build_message a (JStr ''stale-token'' # take 499 tokens501)) =
   Inr \<lparr>successCount = 499, failureCount = 1,
        responses = \<lparr>success = False,
                      error_code = Some ''messaging/registration-token-not-registered''\<rparr> #
                    map (\<lambda>t. \<lparr>success = True, error_code = None\<rparr>) (take 499 tokens501)\<rparr>"
proof -
  have s: "set (take 499 tokens501) \<subseteq> set tokens501"
    by (auto dest: in_set_takeD)
  have len: "length tokens501 = 501" using tokens501_facts by simp
  have m: "map marked_response (JStr ''stale-token'' # take 499 tokens501) =
     \<lparr>success = False, error_code = Some ''messaging/registration-token-not-registered''\<rparr> #
     map (\<lambda>t. \<lparr>success = True, error_code = None\<rparr>) (take 499 tokens501)"
    by (simp add: marked_response_plain[OF s]) (simp add: marked_response_def)
  have t: "tokens (build_message a (JStr ''stale-token'' # take 499 tokens501)) =
     JStr ''stale-token'' # take 499 tokens501"
    by (simp add: build_message_def)
  show ?thesis
    unfolding marked_env_def sample_env_def
    by (simp add: reject_marked_def Let_def t m ok_responses_counts len del: list.map)
qed

lemma reject_marked_second:
  "sendEachForMulticast marked_env
     (build_message a (JStr ''dead-token'' # JStr ''busy-token'' # drop 499 tokens501)) =
   Inr \<lparr>successCount = 2, failureCount = 2,
        responses = \<lparr>success = False,
                      error_code = Some ''messaging/invalid-registration-token''\<rparr> #
                    \<lparr>success = False, error_code = Some ''messaging/server-unavailable''\<rparr> #
                    map (\<lambda>t. \<lparr>success = True, error_code = None\<rparr>) (drop 499 tokens501)\<rparr>"
proof -
  have s: "set (drop 499 tokens501) \<subseteq> set tokens501"
    by (auto dest: in_set_dropD)
  have len: "length tokens501 = 501" using tokens501_facts by simp
  have m: "map marked_response (JStr ''dead-token'' # JStr ''busy-token'' # drop 499 tokens501) =
     \<lparr>success = False, error_code = Some ''messaging/invalid-registration-token''\<rparr> #
     \<lparr>success = False, error_code = Some ''messaging/server-unavailable''\<rparr> #
     map (\<lambda>t. \<lparr>success = True, error_code = None\<rparr>) (drop 499 tokens501)"
    by (simp add: marked_response_plain[OF s]) (simp add: marked_response_def)
  have t: "tokens (build_message a (JStr ''dead-token'' # JStr ''busy-token'' # drop 499 tokens501)) =
     JStr ''dead-token'' # JStr ''busy-token'' # drop 499 tokens501"
    by (simp add: build_message_def)
  show ?thesis
    unfolding marked_env_def sample_env_def
    by (simp add: reject_marked_def Let_def t m ok_responses_counts len del: list.map)
qed

lemma marked_env_configured:
  "getFirebaseMessaging marked_env empty_world =
     (True, empty_world\<lparr>admin_apps := 1, console := [FirebaseInitialized], firebaseMessaging := True\<rparr>)"
  by (simp add: getFirebaseMessaging_def initializeFirebaseMessaging_def parseFirebaseCredential_def
        getRawFirebaseCredential_def marked_env_def sample_env_def empty_world_def Let_def)

theorem sendPushNotification_aggregates_witness:
  "fst (getFirebaseMessaging marked_env empty_world) \<and>
   map length (batches_of (Some tokens504)) = [500, 4] \<and>
   fst (sendPushNotification marked_env (sample_push_args tokens504) empty_world) =
     Inr \<lparr>res_successCount = 501, res_failureCount = 3,
          invalidTokens = [JStr ''stale-token'', JStr ''dead-token'']\<rparr>"
proof -
  let ?a = "sample_push_args tokens504"
  let ?b1 = "JStr ''stale-token'' # take 499 tokens501"
  let ?b2 = "JStr ''dead-token'' # JStr ''busy-token'' # drop 499 tokens501"
  have a: "arg_tokens ?a = Some tokens504"
    by (simp add: sample_push_args_def)
  have len: "length tokens501 = 501" using tokens501_facts by simp
  have g: "fst (getFirebaseMessaging marked_env empty_world)"
    by (simp add: marked_env_configured)
  have bs: "batches_of (arg_tokens ?a) = [?b1, ?b2]"
    by (simp add: a tokens504_batches)
  have l: "map length (batches_of (Some tokens504)) = [500, 4]"
    by (simp add: tokens504_batches len)
  have code: "is_invalid_code (Some ''messaging/registration-token-not-registered'')"
    "is_invalid_code (Some ''messaging/invalid-registration-token'')"
    "\<not> is_invalid_code (Some ''messaging/server-unavailable'')"
    "\<not> is_invalid_code None"
    by (simp_all add: is_invalid_code_def)
  obtain w1 where c: "getFirebaseMessaging marked_env empty_world = (True, w1)"
    using marked_env_configured by blast
  have i1: "js_index ?b1 0 = JStr ''stale-token''" "js_index ?b2 0 = JStr ''dead-token''"
    by (simp_all add: js_index_def)
  have run: "fst (sendPushNotification marked_env ?a empty_world) =
     Inr \<lparr>res_successCount = 501, res_failureCount = 3,
          invalidTokens = [JStr ''stale-token'', JStr ''dead-token'']\<rparr>"
    unfolding sendPushNotification_configured[OF c] bs
    by (simp add: reject_marked_first reject_marked_second code i1 collect_invalid_all_ok Let_def
          del: js_index_def)
  from run have "fst (getFirebaseMessaging marked_env empty_world)"
    unfolding sendPushNotification_aggregates by blast
  with run l show ?thesis by simp
qed

section \<open>Pruning after a dispatch\<close>

lemmas sample_defs = sample_env_def stale_env_def prune_fail_env_def unconfigured_env_def
  provider_down_env_def sample_notification_def sample_world_def empty_world_def bob_def ann_def
  guitar_def accept_all_def reject_stale_def

lemmas notify_defs = sendOfferNotification_def recipientTokens_def find_user_def find_item_def
  offer_body_def fallback_body_def trim_def substring0_def is_space_def sendPushNotification_def
  getFirebaseMessaging_def initializeFirebaseMessaging_def parseFirebaseCredential_def
  getRawFirebaseCredential_def uniqueTokens_def new_Set_def batches_of_def chunk_loop.simps
  chunkSize_def offer_push_args_def build_message_def Let_def is_invalid_code_def js_index_def
  offer_title_def offer_data_def resolvedSenderName_def js_or_def buildDataPayload_def
  removeInvalidTokens_def pull_tokens_def not_configured_def

lemma find_update_first:
  "(\<And>x. p x \<Longrightarrow> p (f x)) \<Longrightarrow> find p (update_first p f xs) = map_option f (find p xs)"
  by (induction xs) auto

lemma getRawFirebaseCredential_db_error:
  "getRawFirebaseCredential (e\<lparr>db_error := d\<rparr>) = getRawFirebaseCredential e"
  by (simp add: getRawFirebaseCredential_def cong: option.case_cong if_cong)

lemma parseFirebaseCredential_db_error:
  "parseFirebaseCredential (e\<lparr>db_error := d\<rparr>) w = parseFirebaseCredential e w"
  by (simp add: parseFirebaseCredential_def getRawFirebaseCredential_db_error
        cong: option.case_cong if_cong)

lemma getFirebaseMessaging_db_error:
  "getFirebaseMessaging (e\<lparr>db_error := d\<rparr>) w = getFirebaseMessaging e w"
  by (simp add: getFirebaseMessaging_def initializeFirebaseMessaging_def
        parseFirebaseCredential_db_error cong: option.case_cong prod.case_cong if_cong)

lemma send_batches_db_error:
  "send_batches (e\<lparr>db_error := d\<rparr>) a bs acc w = send_batches e a bs acc w"
  by (induction bs arbitrary: acc w) (simp_all add: Let_def cong: sum.case_cong)

lemma sendPushNotification_db_error:
  "sendPushNotification (e\<lparr>db_error := d\<rparr>) a w = sendPushNotification e a w"
  by (simp add: sendPushNotification_def getFirebaseMessaging_db_error send_batches_db_error
        cong: prod.case_cong bool.case_cong if_cong)

lemma sendPushNotification_returns:
  assumes "sendPushNotification e a w = (Inr r, w1)"
  shows "invalidTokens r =
     concat (map (\<lambda>b. collect_invalid b 0
                         (responses (projr (sendEachForMulticast e (build_message a b)))) [])
                (batches_of (arg_tokens a)))"
    and "users w1 = users w"
proof -
  obtain c w0 where g0: "getFirebaseMessaging e w = (c, w0)"
    by (cases "getFirebaseMessaging e w")
  have c: "c"
    using assms g0 by (cases c) (simp_all add: sendPushNotification_unconfigured)
  with g0 have g: "getFirebaseMessaging e w = (True, w0)" by simp
  have u0: "users w0 = users w"
    using getFirebaseMessaging_frame[of e w] by (simp add: g)
  let ?bs = "batches_of (arg_tokens a)"
  let ?acc = "\<lparr>res_successCount = 0, res_failureCount = 0, invalidTokens = []\<rparr>"
  have run: "send_batches e a ?bs ?acc w0 = (Inr r, w1)"
    using assms by (simp add: sendPushNotification_configured[OF g])
  have ok: "\<forall>b \<in> set ?bs. \<not> isl (sendEachForMulticast e (build_message a b))"
  proof (rule ccontr)
    assume "\<not> ?thesis"
    then have "\<exists>b \<in> set ?bs. isl (sendEachForMulticast e (build_message a b))" by blast
    from send_batches_fail[OF this, of ?acc w0] run show False by simp
  qed
  from run show "invalidTokens r =
     concat (map (\<lambda>b. collect_invalid b 0
                         (responses (projr (sendEachForMulticast e (build_message a b)))) []) ?bs)"
    by (auto simp: send_batches_ok[OF ok])
  from send_batches_frame[of e a ?bs ?acc w0] run u0 show "users w1 = users w"
    by simp
qed

lemma find_user_pull_tokens:
  "find (\<lambda>u. user_id u = uid) (pull_tokens t uid invalid us) =
   map_option (\<lambda>u. u\<lparr>fcmTokens := filter (\<lambda>tok. tok \<notin> set invalid) (fcmTokens u), user_updatedAt := t\<rparr>)
     (find (\<lambda>u. user_id u = uid) us)"
  unfolding pull_tokens_def by (rule find_update_first) simp

text \<open>
  Claim C1. When \<open>sendOfferNotification\<close> returns a dispatch result: its
  \<open>invalidTokens\<close> are exactly the tokens at the positions, in each batch, of the
  responses that failed with a code containing \<open>registration-token-not-registered\<close> or
  \<open>invalid-registration-token\<close>, in order; when the pruning write succeeds the
  recipient's stored token list is the old one without those tokens; when the pruning
  write is rejected the users are unchanged and the failure is the last console line;
  and the returned result is the same whatever the pruning write does.
\<close>

theorem sendOfferNotification_prunes_invalid_tokens:
  assumes "sendOfferNotification e n w = (Inr (Dispatched r), w')"
  shows "invalidTokens r =
           concat (map (\<lambda>b. map (js_index b)
                 (filter (\<lambda>k. \<not> success (responses (projr (sendEachForMulticast e (offer_batch_message n w b))) ! k) \<and>
                             is_invalid_code (error_code
                               (responses (projr (sendEachForMulticast e (offer_batch_message n w b))) ! k)))
                    [0..<length (responses (projr (sendEachForMulticast e (offer_batch_message n w b))))]))
              (offer_batches n w)) \<and>
         (db_error e (PullUserTokens (recipientUserId n)) = None \<longrightarrow>
            map_option fcmTokens (find_user w' (recipientUserId n)) =
            map_option (\<lambda>u. filter (\<lambda>t. t \<notin> set (invalidTokens r)) (fcmTokens u))
              (find_user w (recipientUserId n))) \<and>
         (\<forall>msg. db_error e (PullUserTokens (recipientUserId n)) = Some msg \<and> invalidTokens r \<noteq> [] \<longrightarrow>
            users w' = users w \<and>
            console w' \<noteq> [] \<and> last (console w') = PruneFailed (recipientUserId n) (Error msg)) \<and>
         (\<forall>x. fst (sendOfferNotification
                     (e\<lparr>db_error := (db_error e)(PullUserTokens (recipientUserId n) := x)\<rparr>) n w) =
               Inr (Dispatched r))"
proof -
  let ?rid = "recipientUserId n"
  let ?toks = "recipientTokens w ?rid"
  from assms have f: "db_error e (FindUser ?rid) = None"
    by (auto simp: sendOfferNotification_def split: option.splits)
  from assms f have ne: "?toks \<noteq> []"
    by (auto simp: sendOfferNotification_def Let_def split: if_splits)
  from assms f ne obtain bd where bd: "offer_body n = Inr bd"
    by (cases "offer_body n") (auto simp: sendOfferNotification_def Let_def)
  let ?a = "offer_push_args n ?toks bd"
  from assms f ne bd obtain w1 where
    push: "sendPushNotification e ?a w = (Inr r, w1)" and
    w': "w' = (if invalidTokens r \<noteq> []
               then removeInvalidTokens e ?rid (invalidTokens r) w1 else w1)"
    by (auto simp: sendOfferNotification_def Let_def split: prod.splits sum.splits)
  have msg: "\<And>b. build_message ?a b = offer_batch_message n w b"
    by (simp add: offer_batch_message_def bd)
  have bs: "batches_of (arg_tokens ?a) = offer_batches n w"
    by (simp add: offer_batches_def offer_push_args_def)
  note ret = sendPushNotification_returns[OF push]
  have one: "invalidTokens r =
           concat (map (\<lambda>b. map (js_index b)
                 (filter (\<lambda>k. \<not> success (responses (projr (sendEachForMulticast e (offer_batch_message n w b))) ! k) \<and>
                             is_invalid_code (error_code
                               (responses (projr (sendEachForMulticast e (offer_batch_message n w b))) ! k)))
                    [0..<length (responses (projr (sendEachForMulticast e (offer_batch_message n w b))))]))
              (offer_batches n w))"
    using ret(1) by (simp add: msg bs collect_invalid_positions)
  have two: "db_error e (PullUserTokens ?rid) = None \<longrightarrow>
            map_option fcmTokens (find_user w' ?rid) =
            map_option (\<lambda>u. filter (\<lambda>t. t \<notin> set (invalidTokens r)) (fcmTokens u)) (find_user w ?rid)"
  proof
    assume ok: "db_error e (PullUserTokens ?rid) = None"
    show "map_option fcmTokens (find_user w' ?rid) =
            map_option (\<lambda>u. filter (\<lambda>t. t \<notin> set (invalidTokens r)) (fcmTokens u)) (find_user w ?rid)"
    proof (cases "invalidTokens r = []")
      case True
      then show ?thesis
        by (simp add: w' find_user_def ret(2) option.map_comp comp_def)
    next
      case False
      then show ?thesis
        by (simp add: w' removeInvalidTokens_def ok find_user_def ret(2) find_user_pull_tokens
              option.map_comp comp_def)
    qed
  qed
  have three: "\<forall>msg. db_error e (PullUserTokens ?rid) = Some msg \<and> invalidTokens r \<noteq> [] \<longrightarrow>
            users w' = users w \<and>
            console w' \<noteq> [] \<and> last (console w') = PruneFailed ?rid (Error msg)"
    by (auto simp: w' removeInvalidTokens_def ret(2))
  have four: "\<forall>x. fst (sendOfferNotification
                     (e\<lparr>db_error := (db_error e)(PullUserTokens ?rid := x)\<rparr>) n w) =
               Inr (Dispatched r)"
    by (simp add: sendOfferNotification_def f ne bd Let_def sendPushNotification_db_error push)
  from one two three four show ?thesis by blast
qed

theorem sendOfferNotification_prunes_invalid_tokens_witness:
  "fst (sendOfferNotification stale_env sample_notification sample_world) =
     Inr (Dispatched \<lparr>res_successCount = 1, res_failureCount = 1,
                      invalidTokens = [JStr ''stale-token'']\<rparr>) \<and>
   db_error stale_env (PullUserTokens ''u1'') = None \<and>
   map_option fcmTokens (find_user sample_world ''u1'') =
     Some [JStr ''tok-1'', JStr ''stale-token'', JStr ''tok-1'', JNull] \<and>
   map_option fcmTokens
     (find_user (snd (sendOfferNotification stale_env sample_notification sample_world)) ''u1'') =
     Some [JStr ''tok-1'', JStr ''tok-1'', JNull] \<and>
   db_error prune_fail_env (PullUserTokens ''u1'') = Some ''write failed'' \<and>
   fst (sendOfferNotification prune_fail_env sample_notification sample_world) =
     Inr (Dispatched \<lparr>res_successCount = 1, res_failureCount = 1,
                      invalidTokens = [JStr ''stale-token'']\<rparr>) \<and>
   users (snd (sendOfferNotification prune_fail_env sample_notification sample_world)) =
     users sample_world \<and>
   last (console (snd (sendOfferNotification prune_fail_env sample_notification sample_world))) =
     PruneFailed ''u1'' (Error ''write failed'')"
proof -
  let ?r = "\<lparr>res_successCount = 1, res_failureCount = 1, invalidTokens = [JStr ''stale-token'']\<rparr>"
  have a: "fst (sendOfferNotification stale_env sample_notification sample_world) =
     Inr (Dispatched ?r)"
    by (simp add: notify_defs sample_defs)
  have b: "fst (sendOfferNotification prune_fail_env sample_notification sample_world) =
     Inr (Dispatched ?r)"
    by (simp add: notify_defs sample_defs)
  have a': "sendOfferNotification stale_env sample_notification sample_world =
     (Inr (Dispatched ?r), snd (sendOfferNotification stale_env sample_notification sample_world))"
    using a by (metis prod.collapse)
  have b': "sendOfferNotification prune_fail_env sample_notification sample_world =
     (Inr (Dispatched ?r), snd (sendOfferNotification prune_fail_env sample_notification sample_world))"
    using b by (metis prod.collapse)
  have rid: "recipientUserId sample_notification = ''u1''"
    by (simp add: sample_notification_def)
  have d1: "db_error stale_env (PullUserTokens ''u1'') = None"
    by (simp add: sample_defs)
  have d2: "db_error prune_fail_env (PullUserTokens ''u1'') = Some ''write failed''"
    by (simp add: sample_defs)
  have old: "map_option fcmTokens (find_user sample_world ''u1'') =
     Some [JStr ''tok-1'', JStr ''stale-token'', JStr ''tok-1'', JNull]"
    by (simp add: find_user_def sample_defs)
  note t1 = sendOfferNotification_prunes_invalid_tokens[OF a']
  note t2 = sendOfferNotification_prunes_invalid_tokens[OF b']
  from t1 d1 have
    "map_option fcmTokens
       (find_user (snd (sendOfferNotification stale_env sample_notification sample_world)) ''u1'') =
     map_option (\<lambda>u. filter (\<lambda>t. t \<notin> set (invalidTokens ?r)) (fcmTokens u))
       (find_user sample_world ''u1'')"
    unfolding rid by blast
  then have new: "map_option fcmTokens
       (find_user (snd (sendOfferNotification stale_env sample_notification sample_world)) ''u1'') =
     Some [JStr ''tok-1'', JStr ''tok-1'', JNull]"
    by (simp add: find_user_def sample_defs)
  from t2 d2 have
    "users (snd (sendOfferNotification prune_fail_env sample_notification sample_world)) =
       users sample_world \<and>
     last (console (snd (sendOfferNotification prune_fail_env sample_notification sample_world))) =
       PruneFailed ''u1'' (Error ''write failed'')"
    unfolding rid by simp
  with a b d1 d2 old new show ?thesis by simp
qed

section \<open>A recipient without tokens\<close>

lemmas more_sample_defs = carl_def falsy_world_def notification_to_def sample_offer_request_def

text \<open>
  Claim C3. When the lookup of the recipient answers and the recipient has no stored
  token (or there is no such user), \<open>sendOfferNotification\<close> returns
  \<open>{skipped: true, reason: "no_tokens"}\<close> as a value, not an error, and leaves the
  world as it was: nothing is handed to the push provider.
\<close>

theorem sendOfferNotification_no_tokens_skips:
  assumes "db_error e (FindUser (recipientUserId n)) = None"
      and "case find_user w (recipientUserId n) of None \<Rightarrow> True | Some u \<Rightarrow> fcmTokens u = []"
  shows "sendOfferNotification e n w = (Inr (Skipped ''no_tokens''), w) \<and>
         sent (snd (sendOfferNotification e n w)) = sent w"
  using assms
  by (simp add: sendOfferNotification_def recipientTokens_def split: option.splits)

theorem sendOfferNotification_no_tokens_skips_witness:
  "db_error sample_env (FindUser ''u2'') = None \<and>
   map_option fcmTokens (find_user sample_world ''u2'') = Some [] \<and>
   sendOfferNotification sample_env (notification_to ''u2'') sample_world =
     (Inr (Skipped ''no_tokens''), sample_world) \<and>
   find_user sample_world ''nobody'' = None \<and>
   sendOfferNotification sample_env (notification_to ''nobody'') sample_world =
     (Inr (Skipped ''no_tokens''), sample_world)"
proof -
  have d: "\<And>uid. db_error sample_env (FindUser (recipientUserId (notification_to uid))) = None"
    by (simp add: sample_defs)
  have u2: "find_user sample_world (recipientUserId (notification_to ''u2'')) = Some ann"
    by (simp add: find_user_def sample_defs more_sample_defs)
  have nb: "find_user sample_world (recipientUserId (notification_to ''nobody'')) = None"
    by (simp add: find_user_def sample_defs more_sample_defs)
  have a: "sendOfferNotification sample_env (notification_to ''u2'') sample_world =
     (Inr (Skipped ''no_tokens''), sample_world)"
    using sendOfferNotification_no_tokens_skips[OF d, of sample_world "''u2''"]
    by (simp add: u2 ann_def)
  have b: "sendOfferNotification sample_env (notification_to ''nobody'') sample_world =
     (Inr (Skipped ''no_tokens''), sample_world)"
    using sendOfferNotification_no_tokens_skips[OF d, of sample_world "''nobody''"]
    by (simp add: nb)
  show ?thesis
    using a b by (simp add: find_user_def sample_defs more_sample_defs)
qed

text \<open>
  Claim C10. The stored tokens are filtered with \<open>filter(Boolean)\<close> before the
  emptiness test, and that test comes before the transport is looked at: a recipient
  whose stored tokens are all falsy gets the no-tokens result in every environment,
  configured or not. And on a configured transport \<open>sendPushNotification\<close> with no
  truthy token returns zero counts and no invalid tokens without handing anything to
  the provider.
\<close>

theorem falsy_tokens_skip_before_configuration:
  "(db_error e (FindUser (recipientUserId n)) = None \<and>
    find_user w (recipientUserId n) = Some u \<and>
    list_all (\<lambda>t. \<not> truthy t) (fcmTokens u) \<longrightarrow>
      sendOfferNotification e n w = (Inr (Skipped ''no_tokens''), w)) \<and>
   (fst (getFirebaseMessaging e w) \<and>
    list_all (\<lambda>t. \<not> truthy t) (case arg_tokens a of None \<Rightarrow> [] | Some xs \<Rightarrow> xs) \<longrightarrow>
      fst (sendPushNotification e a w) =
        Inr \<lparr>res_successCount = 0, res_failureCount = 0, invalidTokens = []\<rparr> \<and>
      sent (snd (sendPushNotification e a w)) = sent w)"
proof -
  have none: "\<And>xs. list_all (\<lambda>t. \<not> truthy t) xs \<Longrightarrow> filter truthy xs = []"
    by (simp add: list_all_iff filter_empty_conv)
  have one: "db_error e (FindUser (recipientUserId n)) = None \<and>
    find_user w (recipientUserId n) = Some u \<and>
    list_all (\<lambda>t. \<not> truthy t) (fcmTokens u) \<longrightarrow>
      sendOfferNotification e n w = (Inr (Skipped ''no_tokens''), w)"
    by (auto simp: sendOfferNotification_def recipientTokens_def none)
  have two: "fst (getFirebaseMessaging e w) \<and>
    list_all (\<lambda>t. \<not> truthy t) (case arg_tokens a of None \<Rightarrow> [] | Some xs \<Rightarrow> xs) \<longrightarrow>
      fst (sendPushNotification e a w) =
        Inr \<lparr>res_successCount = 0, res_failureCount = 0, invalidTokens = []\<rparr> \<and>
      sent (snd (sendPushNotification e a w)) = sent w"
  proof
    assume h: "fst (getFirebaseMessaging e w) \<and>
      list_all (\<lambda>t. \<not> truthy t) (case arg_tokens a of None \<Rightarrow> [] | Some xs \<Rightarrow> xs)"
    then obtain w1 where g: "getFirebaseMessaging e w = (True, w1)"
      by (cases "getFirebaseMessaging e w") auto
    have u: "uniqueTokens (arg_tokens a) = []"
      using h none by (simp add: uniqueTokens_def new_Set_def)
    have s: "sent w1 = sent w"
      using getFirebaseMessaging_frame[of e w] by (simp add: g)
    show "fst (sendPushNotification e a w) =
        Inr \<lparr>res_successCount = 0, res_failureCount = 0, invalidTokens = []\<rparr> \<and>
      sent (snd (sendPushNotification e a w)) = sent w"
      by (simp add: sendPushNotification_def g u s)
  qed
  from one two show ?thesis by blast
qed

theorem falsy_tokens_skip_before_configuration_witness:
  "\<not> fst (getFirebaseMessaging unconfigured_env falsy_world) \<and>
   map_option fcmTokens (find_user falsy_world ''u3'') = Some [JNull, JStr [], JUndefined] \<and>
   sendOfferNotification unconfigured_env (notification_to ''u3'') falsy_world =
     (Inr (Skipped ''no_tokens''), falsy_world) \<and>
   fst (getFirebaseMessaging sample_env empty_world) \<and>
   fst (sendPushNotification sample_env (sample_push_args [JNull, JStr [], JUndefined]) empty_world) =
     Inr \<lparr>res_successCount = 0, res_failureCount = 0, invalidTokens = []\<rparr> \<and>
   sent (snd (sendPushNotification sample_env (sample_push_args [JNull, JStr [], JUndefined]) empty_world)) = []"
proof -
  let ?a = "sample_push_args [JNull, JStr [], JUndefined]"
  have un: "\<not> fst (getFirebaseMessaging unconfigured_env falsy_world)"
    by (simp add: notify_defs sample_defs more_sample_defs)
  have f: "find_user falsy_world (recipientUserId (notification_to ''u3'')) = Some carl"
    by (simp add: find_user_def sample_defs more_sample_defs)
  have d: "db_error unconfigured_env (FindUser (recipientUserId (notification_to ''u3''))) = None"
    by (simp add: sample_defs)
  have l: "list_all (\<lambda>t. \<not> truthy t) (fcmTokens carl)"
    by (simp add: carl_def)
  have g: "fst (getFirebaseMessaging sample_env empty_world)"
    by (simp add: sample_env_configured)
  have l2: "list_all (\<lambda>t. \<not> truthy t) (case arg_tokens ?a of None \<Rightarrow> [] | Some xs \<Rightarrow> xs)"
    by (simp add: sample_push_args_def)
  note t1 = falsy_tokens_skip_before_configuration
    [where e = unconfigured_env and n = "notification_to ''u3''" and w = falsy_world and u = carl]
  note t2 = falsy_tokens_skip_before_configuration
    [where e = sample_env and w = empty_world and a = ?a]
  from t1 d f l have a: "sendOfferNotification unconfigured_env (notification_to ''u3'') falsy_world =
     (Inr (Skipped ''no_tokens''), falsy_world)" by blast
  from t2 g l2 have b: "fst (sendPushNotification sample_env ?a empty_world) =
        Inr \<lparr>res_successCount = 0, res_failureCount = 0, invalidTokens = []\<rparr> \<and>
      sent (snd (sendPushNotification sample_env ?a empty_world)) = sent empty_world" by blast
  have c: "map_option fcmTokens (find_user falsy_world ''u3'') = Some [JNull, JStr [], JUndefined]"
    by (simp add: find_user_def sample_defs more_sample_defs)
  from un a b c g show ?thesis by (simp add: empty_world_def)
qed

section \<open>The unconfigured transport\<close>










section \<open>The payload of an offer notification\<close>

lemma sendPushNotification_sent_prefix:
  "\<exists>k \<le> length (batches_of (arg_tokens a)).
     sent (snd (sendPushNotification e a w)) =
       sent w @ map (build_message a) (take k (batches_of (arg_tokens a)))"
proof (cases "getFirebaseMessaging e w")
  case (Pair c w1)
  have s1: "sent w1 = sent w"
    using getFirebaseMessaging_frame[of e w] by (simp add: Pair)
  show ?thesis
  proof (cases c)
    case False
    with Pair have "sent (snd (sendPushNotification e a w)) =
       sent w @ map (build_message a) (take 0 (batches_of (arg_tokens a)))"
      by (simp add: sendPushNotification_unconfigured s1)
    then show ?thesis by blast
  next
    case True
    with Pair have g: "getFirebaseMessaging e w = (True, w1)" by simp
    show ?thesis
      using send_batches_sent_prefix[of "batches_of (arg_tokens a)" e a
          "\<lparr>res_successCount = 0, res_failureCount = 0, invalidTokens = []\<rparr>" w1]
      by (simp add: sendPushNotification_configured[OF g] s1)
  qed
qed

lemma removeInvalidTokens_sent: "sent (removeInvalidTokens e uid toks w) = sent w"
  by (simp add: removeInvalidTokens_def split: option.splits)

lemma tokens_offer_batch_message: "tokens (offer_batch_message n w b) = b"
  by (simp add: offer_batch_message_def build_message_def)

lemma recipientTokens_truthy: "filter truthy (recipientTokens w uid) = recipientTokens w uid"
  by (simp add: recipientTokens_def split: option.splits)

lemma offer_batches_nonempty:
  assumes "recipientTokens w (recipientUserId n) \<noteq> []"
  shows "offer_batches n w \<noteq> []"
proof -
  let ?toks = "recipientTokens w (recipientUserId n)"
  have "set (uniqueTokens (Some ?toks)) = set ?toks"
    by (simp add: uniqueTokens_def new_Set_def set_set_add_all recipientTokens_truthy)
  with assms have "uniqueTokens (Some ?toks) \<noteq> []" by auto
  moreover have "concat (offer_batches n w) = uniqueTokens (Some ?toks)"
    by (simp add: offer_batches_def batches_of_def concat_chunk_loop)
  ultimately show ?thesis by auto
qed

lemma sendOfferNotification_sent:
  "\<exists>k \<le> length (offer_batches n w).
     sent (snd (sendOfferNotification e n w)) =
       sent w @ map (offer_batch_message n w) (take k (offer_batches n w)) \<and>
     (0 < k \<longrightarrow> \<not> isl (offer_body n)) \<and>
     (\<forall>r. fst (sendOfferNotification e n w) = Inr (Dispatched r) \<longrightarrow>
        k = length (offer_batches n w) \<and> 0 < k)"
proof -
  let ?rid = "recipientUserId n"
  let ?toks = "recipientTokens w ?rid"
  have zero: "sent (snd (sendOfferNotification e n w)) = sent w \<Longrightarrow>
     \<forall>r. fst (sendOfferNotification e n w) \<noteq> Inr (Dispatched r) \<Longrightarrow> ?thesis"
    by (rule exI[of _ 0]) simp
  show ?thesis
  proof (cases "db_error e (FindUser ?rid)")
    case (Some msg)
    then show ?thesis by (intro zero) (simp_all add: sendOfferNotification_def)
  next
    case None
    show ?thesis
    proof (cases "?toks = []")
      case True
      with None show ?thesis by (intro zero) (simp_all add: sendOfferNotification_def)
    next
      case ne: False
      show ?thesis
      proof (cases "offer_body n")
        case (Inl err)
        with None ne show ?thesis by (intro zero) (simp_all add: sendOfferNotification_def)
      next
        case (Inr bd)
        let ?a = "offer_push_args n ?toks bd"
        have msg: "build_message ?a = offer_batch_message n w"
          by (rule ext) (simp add: offer_batch_message_def Inr)
        have bs: "batches_of (arg_tokens ?a) = offer_batches n w"
          by (simp add: offer_batches_def offer_push_args_def)
        obtain k where k: "k \<le> length (offer_batches n w)"
          "sent (snd (sendPushNotification e ?a w)) =
             sent w @ map (offer_batch_message n w) (take k (offer_batches n w))"
          using sendPushNotification_sent_prefix[of ?a e w] unfolding msg bs by blast
        obtain res w1 where p: "sendPushNotification e ?a w = (res, w1)"
          by (cases "sendPushNotification e ?a w")
        have s: "sent (snd (sendOfferNotification e n w)) = sent w1"
          using None ne Inr p
          by (cases res) (simp_all add: sendOfferNotification_def removeInvalidTokens_sent)
        have full: "fst (sendOfferNotification e n w) = Inr (Dispatched r) \<Longrightarrow>
            k = length (offer_batches n w) \<and> 0 < k" for r
        proof -
          assume d: "fst (sendOfferNotification e n w) = Inr (Dispatched r)"
          with None ne Inr p have res: "res = Inr r"
            by (cases res) (simp_all add: sendOfferNotification_def)
          obtain c w0 where g0: "getFirebaseMessaging e w = (c, w0)"
            by (cases "getFirebaseMessaging e w")
          have "c" using p res g0 by (cases c) (simp_all add: sendPushNotification_unconfigured)
          with g0 have g: "getFirebaseMessaging e w = (True, w0)" by simp
          let ?acc = "\<lparr>res_successCount = 0, res_failureCount = 0, invalidTokens = []\<rparr>"
          have run: "send_batches e ?a (offer_batches n w) ?acc w0 = (Inr r, w1)"
            using p res by (simp add: sendPushNotification_configured[OF g] bs)
          have ok: "\<forall>b \<in> set (offer_batches n w). \<not> isl (sendEachForMulticast e (build_message ?a b))"
          proof (rule ccontr)
            assume "\<not> ?thesis"
            then have "\<exists>b \<in> set (offer_batches n w). isl (sendEachForMulticast e (build_message ?a b))"
              by blast
            from send_batches_fail[OF this, of ?acc w0] run show False by simp
          qed
          have s0: "sent w0 = sent w"
            using getFirebaseMessaging_frame[of e w] by (simp add: g)
          have "sent w1 = sent w @ map (offer_batch_message n w) (offer_batches n w)"
            using run by (auto simp: send_batches_ok[OF ok] msg s0)
          with k(2) p have "map (offer_batch_message n w) (take k (offer_batches n w)) =
              map (offer_batch_message n w) (offer_batches n w)"
            by simp
          then have "map tokens (map (offer_batch_message n w) (take k (offer_batches n w))) =
              map tokens (map (offer_batch_message n w) (offer_batches n w))"
            by simp
          then have "take k (offer_batches n w) = offer_batches n w"
            by (simp add: comp_def tokens_offer_batch_message)
          then have kk: "k = length (offer_batches n w)"
            using k(1) by (metis length_take min.absorb2)
          have "offer_batches n w \<noteq> []"
            using ne by (rule offer_batches_nonempty)
          with kk show ?thesis by simp
        qed
        from k s p full Inr show ?thesis
          by (intro exI[of _ k]) auto
      qed
    qed
  qed
qed


lemma offer_body_value:
  assumes "offer_body n = Inr bd"
  shows "bd = (let b = take 140 (trim (case message_text n of JStr s \<Rightarrow> s | _ \<Rightarrow> []))
               in if b \<noteq> [] then b
                  else ''New pitch on '' @ toString (js_or (itemName n) (JStr ''your listing'')))"
proof (cases "message_text n")
  case JUndefined
  with assms show ?thesis by (simp add: offer_body_def fallback_body_def trim_def)
next
  case JNull
  with assms show ?thesis by (simp add: offer_body_def fallback_body_def trim_def)
next
  case (JBool b)
  with assms show ?thesis
    by (cases b) (simp_all add: offer_body_def fallback_body_def trim_def)
next
  case (JStr s)
  with assms show ?thesis
    by (cases "s = []")
       (auto simp: offer_body_def fallback_body_def trim_def substring0_def Let_def
             split: if_splits)
qed

lemma offer_batch_message_payload:
  assumes "\<not> isl (offer_body n)"
  shows "title (notification (offer_batch_message n w b)) =
           toString (js_or (senderName n) (JStr ''A SwopTrader user'')) @ '' sent you an offer''"
    and "body (notification (offer_batch_message n w b)) =
           (let t = take 140 (trim (case message_text n of JStr s \<Rightarrow> s | _ \<Rightarrow> []))
            in if t \<noteq> [] then t
               else ''New pitch on '' @ toString (js_or (itemName n) (JStr ''your listing'')))"
    and "data (offer_batch_message n w b) =
           [(''type'', JStr ''offer''),
            (''offerId'', JStr (data_text (offerId n))),
            (''senderUserId'', JStr (data_text (senderUserId n))),
            (''senderName'', JStr (data_text (js_or (senderName n) (JStr ''A SwopTrader user'')))),
            (''recipientUserId'', JStr (recipientUserId n)),
            (''itemName'', JStr (data_text (js_or (itemName n) (JStr [])))),
            (''message'', JStr (data_text (js_or (message_text n) (JStr []))))]"
proof -
  from assms obtain bd where bd: "offer_body n = Inr bd"
    by (cases "offer_body n") auto
  show "title (notification (offer_batch_message n w b)) =
           toString (js_or (senderName n) (JStr ''A SwopTrader user'')) @ '' sent you an offer''"
    by (simp add: offer_batch_message_def build_message_def offer_push_args_def offer_title_def
          resolvedSenderName_def)
  show "body (notification (offer_batch_message n w b)) =
           (let t = take 140 (trim (case message_text n of JStr s \<Rightarrow> s | _ \<Rightarrow> []))
            in if t \<noteq> [] then t
               else ''New pitch on '' @ toString (js_or (itemName n) (JStr ''your listing'')))"
    using offer_body_value[OF bd]
    by (simp add: offer_batch_message_def build_message_def offer_push_args_def bd)
  show "data (offer_batch_message n w b) =
           [(''type'', JStr ''offer''),
            (''offerId'', JStr (data_text (offerId n))),
            (''senderUserId'', JStr (data_text (senderUserId n))),
            (''senderName'', JStr (data_text (js_or (senderName n) (JStr ''A SwopTrader user'')))),
            (''recipientUserId'', JStr (recipientUserId n)),
            (''itemName'', JStr (data_text (js_or (itemName n) (JStr [])))),
            (''message'', JStr (data_text (js_or (message_text n) (JStr []))))]"
    by (simp add: offer_batch_message_def build_message_def offer_push_args_def offer_data_def
          buildDataPayload_def data_text_def resolvedSenderName_def)
qed

text \<open>
  Claim C4, as stated, fails: the body is not the message truncated to 140 characters
  but the message without its leading and trailing white space, truncated. With the
  message \<open>" hi"\<close> the one message sent has the body \<open>"hi"\<close>, where the
  specification's wording gives \<open>" hi"\<close>.
\<close>

theorem offer_body_is_trimmed_counterexample:
  "map (body \<circ> notification)
     (sent (snd (sendOfferNotification sample_env sample_notification sample_world))) = [''hi''] \<and>
   spec_body sample_notification = '' hi'' \<and>
   map (body \<circ> notification)
     (sent (snd (sendOfferNotification sample_env sample_notification sample_world))) \<noteq>
     [spec_body sample_notification]"
proof -
  have a: "map (body \<circ> notification)
     (sent (snd (sendOfferNotification sample_env sample_notification sample_world))) = [''hi'']"
    by (simp add: notify_defs sample_defs)
  have b: "spec_body sample_notification = '' hi''"
    by (simp add: spec_body_def substring0_def sample_defs)
  show ?thesis
    unfolding a b by simp
qed

text \<open>
  Claim C4, amended. The messages \<open>sendOfferNotification\<close> hands to the provider (one
  per batch when the dispatch returns a result) all have the title
  \<open>"<senderName> sent you an offer"\<close>, with \<open>A SwopTrader user\<close> for a missing or empty
  sender name; the body is the message without leading and trailing white space, cut to
  140 characters, or \<open>"New pitch on <itemName>"\<close> (\<open>your listing\<close> for a missing item
  name) when the message is missing, empty or only white space; and the data map holds
  type, offer id, sender id and name, recipient id, item name and the raw message, each
  value a string, \<open>null\<close> and \<open>undefined\<close> stored as the empty string.
\<close>

theorem offer_notification_payload:
  "\<exists>ms. sent (snd (sendOfferNotification e n w)) = sent w @ ms \<and>
     (fst (sendOfferNotification e n w) = Inr (Dispatched r) \<longrightarrow>
        ms \<noteq> [] \<and> map tokens ms = offer_batches n w) \<and>
     (\<forall>m \<in> set ms.
        title (notification m) =
          toString (js_or (senderName n) (JStr ''A SwopTrader user'')) @ '' sent you an offer'' \<and>
        body (notification m) =
          (let t = take 140 (trim (case message_text n of JStr s \<Rightarrow> s | _ \<Rightarrow> []))
           in if t \<noteq> [] then t
              else ''New pitch on '' @ toString (js_or (itemName n) (JStr ''your listing''))) \<and>
        data m =
          [(''type'', JStr ''offer''),
           (''offerId'', JStr (data_text (offerId n))),
           (''senderUserId'', JStr (data_text (senderUserId n))),
           (''senderName'', JStr (data_text (js_or (senderName n) (JStr ''A SwopTrader user'')))),
           (''recipientUserId'', JStr (recipientUserId n)),
           (''itemName'', JStr (data_text (js_or (itemName n) (JStr [])))),
           (''message'', JStr (data_text (js_or (message_text n) (JStr []))))] \<and>
        list_all (\<lambda>(key, v). is_JStr v) (data m) \<and>
        data_text JUndefined = [] \<and> data_text JNull = [])"
proof -
  obtain k where k: "k \<le> length (offer_batches n w)"
    "sent (snd (sendOfferNotification e n w)) =
       sent w @ map (offer_batch_message n w) (take k (offer_batches n w))"
    "0 < k \<longrightarrow> \<not> isl (offer_body n)"
    "\<forall>r. fst (sendOfferNotification e n w) = Inr (Dispatched r) \<longrightarrow>
        k = length (offer_batches n w) \<and> 0 < k"
    using sendOfferNotification_sent[of n w e] by blast
  let ?ms = "map (offer_batch_message n w) (take k (offer_batches n w))"
  have full: "fst (sendOfferNotification e n w) = Inr (Dispatched r) \<longrightarrow>
        ?ms \<noteq> [] \<and> map tokens ?ms = offer_batches n w"
  proof
    assume "fst (sendOfferNotification e n w) = Inr (Dispatched r)"
    with k(4) have kk: "k = length (offer_batches n w)" "0 < k" by blast+
    then have "0 < length (offer_batches n w)" by (rule subst)
    then have "offer_batches n w \<noteq> []" by simp
    with kk(1) show "?ms \<noteq> [] \<and> map tokens ?ms = offer_batches n w"
      by (simp add: comp_def tokens_offer_batch_message)
  qed
  have each: "\<forall>m \<in> set ?ms.
        title (notification m) =
          toString (js_or (senderName n) (JStr ''A SwopTrader user'')) @ '' sent you an offer'' \<and>
        body (notification m) =
          (let t = take 140 (trim (case message_text n of JStr s \<Rightarrow> s | _ \<Rightarrow> []))
           in if t \<noteq> [] then t
              else ''New pitch on '' @ toString (js_or (itemName n) (JStr ''your listing''))) \<and>
        data m =
          [(''type'', JStr ''offer''),
           (''offerId'', JStr (data_text (offerId n))),
           (''senderUserId'', JStr (data_text (senderUserId n))),
           (''senderName'', JStr (data_text (js_or (senderName n) (JStr ''A SwopTrader user'')))),
           (''recipientUserId'', JStr (recipientUserId n)),
           (''itemName'', JStr (data_text (js_or (itemName n) (JStr [])))),
           (''message'', JStr (data_text (js_or (message_text n) (JStr []))))] \<and>
        list_all (\<lambda>(key, v). is_JStr v) (data m) \<and>
        data_text JUndefined = [] \<and> data_text JNull = []"
  proof
    fix m assume m: "m \<in> set ?ms"
    then have "0 < k" by (cases k) auto
    with k(3) have b: "\<not> isl (offer_body n)" by simp
    from m obtain bt where mb: "m = offer_batch_message n w bt" by auto
    note p = offer_batch_message_payload[OF b, of w bt]
    show "title (notification m) =
          toString (js_or (senderName n) (JStr ''A SwopTrader user'')) @ '' sent you an offer'' \<and>
        body (notification m) =
          (let t = take 140 (trim (case message_text n of JStr s \<Rightarrow> s | _ \<Rightarrow> []))
           in if t \<noteq> [] then t
              else ''New pitch on '' @ toString (js_or (itemName n) (JStr ''your listing''))) \<and>
        data m =
          [(''type'', JStr ''offer''),
           (''offerId'', JStr (data_text (offerId n))),
           (''senderUserId'', JStr (data_text (senderUserId n))),
           (''senderName'', JStr (data_text (js_or (senderName n) (JStr ''A SwopTrader user'')))),
           (''recipientUserId'', JStr (recipientUserId n)),
           (''itemName'', JStr (data_text (js_or (itemName n) (JStr [])))),
           (''message'', JStr (data_text (js_or (message_text n) (JStr []))))] \<and>
        list_all (\<lambda>(key, v). is_JStr v) (data m) \<and>
        data_text JUndefined = [] \<and> data_text JNull = []"
      unfolding mb p by (simp add: data_text_def)
  qed
  from k(2) full each show ?thesis by blast
qed

theorem offer_notification_payload_witness:
  "fst (sendOfferNotification sample_env sample_notification sample_world) =
     Inr (Dispatched \<lparr>res_successCount = 2, res_failureCount = 0, invalidTokens = []\<rparr>) \<and>
   sent (snd (sendOfferNotification sample_env sample_notification sample_world)) \<noteq> [] \<and>
   list_all (\<lambda>m. title (notification m) = ''Ann sent you an offer'' \<and>
                 body (notification m) = ''hi'' \<and>
                 data m = [(''type'', JStr ''offer''), (''offerId'', JStr ''o1''),
                           (''senderUserId'', JStr ''u2''), (''senderName'', JStr ''Ann''),
                           (''recipientUserId'', JStr ''u1''), (''itemName'', JStr ''Guitar''),
                           (''message'', JStr '' hi'')])
     (sent (snd (sendOfferNotification sample_env sample_notification sample_world)))"
proof -
  let ?r = "\<lparr>res_successCount = 2, res_failureCount = 0, invalidTokens = []\<rparr>"
  let ?X = "sendOfferNotification sample_env sample_notification sample_world"
  have d: "fst ?X = Inr (Dispatched ?r)"
    by (simp add: notify_defs sample_defs)
  have s0: "sent sample_world = []"
    by (simp add: sample_defs)
  from offer_notification_payload[of sample_env sample_notification sample_world ?r] d s0
  obtain ms where ms: "sent (snd ?X) = ms" "ms \<noteq> []"
    "\<forall>m \<in> set ms.
        title (notification m) =
          toString (js_or (senderName sample_notification) (JStr ''A SwopTrader user'')) @
          '' sent you an offer'' \<and>
        body (notification m) =
          (let t = take 140 (trim (case message_text sample_notification of JStr s \<Rightarrow> s | _ \<Rightarrow> []))
           in if t \<noteq> [] then t
              else ''New pitch on '' @
                   toString (js_or (itemName sample_notification) (JStr ''your listing''))) \<and>
        data m =
          [(''type'', JStr ''offer''),
           (''offerId'', JStr (data_text (offerId sample_notification))),
           (''senderUserId'', JStr (data_text (senderUserId sample_notification))),
           (''senderName'', JStr (data_text (js_or (senderName sample_notification) (JStr ''A SwopTrader user'')))),
           (''recipientUserId'', JStr (recipientUserId sample_notification)),
           (''itemName'', JStr (data_text (js_or (itemName sample_notification) (JStr [])))),
           (''message'', JStr (data_text (js_or (message_text sample_notification) (JStr []))))]"
    by auto
  have v: "toString (js_or (senderName sample_notification) (JStr ''A SwopTrader user'')) @
          '' sent you an offer'' = ''Ann sent you an offer''"
     "(let t = take 140 (trim (case message_text sample_notification of JStr s \<Rightarrow> s | _ \<Rightarrow> []))
           in if t \<noteq> [] then t
              else ''New pitch on '' @
                   toString (js_or (itemName sample_notification) (JStr ''your listing''))) = ''hi''"
     "[(''type'', JStr ''offer''),
           (''offerId'', JStr (data_text (offerId sample_notification))),
           (''senderUserId'', JStr (data_text (senderUserId sample_notification))),
           (''senderName'', JStr (data_text (js_or (senderName sample_notification) (JStr ''A SwopTrader user'')))),
           (''recipientUserId'', JStr (recipientUserId sample_notification)),
           (''itemName'', JStr (data_text (js_or (itemName sample_notification) (JStr [])))),
           (''message'', JStr (data_text (js_or (message_text sample_notification) (JStr []))))] =
      [(''type'', JStr ''offer''), (''offerId'', JStr ''o1''),
                           (''senderUserId'', JStr ''u2''), (''senderName'', JStr ''Ann''),
                           (''recipientUserId'', JStr ''u1''), (''itemName'', JStr ''Guitar''),
                           (''message'', JStr '' hi'')]"
    by (simp_all add: sample_notification_def js_or_def trim_def is_space_def data_text_def)
  from ms(3) have "list_all (\<lambda>m. title (notification m) = ''Ann sent you an offer'' \<and>
                 body (notification m) = ''hi'' \<and>
                 data m = [(''type'', JStr ''offer''), (''offerId'', JStr ''o1''),
                           (''senderUserId'', JStr ''u2''), (''senderName'', JStr ''Ann''),
                           (''recipientUserId'', JStr ''u1''), (''itemName'', JStr ''Guitar''),
                           (''message'', JStr '' hi'')]) ms"
    unfolding v by (simp add: list_all_iff)
  with d ms(1,2) show ?thesis by simp
qed

section \<open>Offer creation and the notification\<close>

lemmas offer_defs = lookup_fail_env_def sample_offer_body_def sample_offer_def post_offers_def
  save_offer_def new_Offer_def nonempty_def offer_statuses_def ok_response_def fail_response_def
  queueOfferNotificationForOffer_def offer_lookups_def queued_notification_def

lemma getFirebaseMessaging_offers: "offers (snd (getFirebaseMessaging e w)) = offers w"
  using getFirebaseMessaging_frame[of e w] by simp

lemma sendPushNotification_offers: "offers (snd (sendPushNotification e a w)) = offers w"
proof (cases "getFirebaseMessaging e w")
  case (Pair c w1)
  have o1: "offers w1 = offers w"
    using getFirebaseMessaging_offers[of e w] by (simp add: Pair)
  show ?thesis
  proof (cases c)
    case True
    with Pair have g: "getFirebaseMessaging e w = (True, w1)" by simp
    show ?thesis
      using send_batches_frame[of e a "batches_of (arg_tokens a)"
          "\<lparr>res_successCount = 0, res_failureCount = 0, invalidTokens = []\<rparr>" w1]
      by (simp add: sendPushNotification_configured[OF g] o1)
  next
    case False
    with Pair show ?thesis by (simp add: sendPushNotification_unconfigured o1)
  qed
qed

lemma removeInvalidTokens_offers: "offers (removeInvalidTokens e uid toks w) = offers w"
  by (simp add: removeInvalidTokens_def split: option.splits)

lemma sendOfferNotification_offers: "offers (snd (sendOfferNotification e n w)) = offers w"
proof -
  have p: "\<And>a res w1. sendPushNotification e a w = (res, w1) \<Longrightarrow> offers w1 = offers w"
    using sendPushNotification_offers[of e _ w] by (metis snd_conv)
  show ?thesis
    by (auto simp: sendOfferNotification_def Let_def removeInvalidTokens_offers
             split: option.splits sum.splits prod.splits dest: p)
qed

lemma queueOfferNotificationForOffer_offers:
  "offers (queueOfferNotificationForOffer e off w) = offers w"
proof -
  have p: "\<And>n res w1. sendOfferNotification e n w = (res, w1) \<Longrightarrow> offers w1 = offers w"
    using sendOfferNotification_offers[of e _ w] by (metis snd_conv)
  show ?thesis
    by (auto simp: queueOfferNotificationForOffer_def split: option.splits sum.splits prod.splits
             dest: p)
qed

text \<open>
  Claim C7. When the persistence write of an offer creation succeeds, the route answers
  201 with the saved offer in every environment, whatever the lookups and the dispatch
  of \<open>queueOfferNotificationForOffer\<close> do; the offer stays persisted; and a failed lookup
  or a failed dispatch ends as one console line, not as an error of the route.
\<close>

theorem post_offers_ignores_notification_failure:
  assumes "save_offer e r w = Inr (off, w1)"
  shows "fst (post_offers e r w) = ok_response 201 off None \<and>
         http_status (fst (post_offers e r w)) = 201 \<and>
         offers (snd (post_offers e r w)) = offers w1 \<and> off \<in> set (offers w1) \<and>
         (\<forall>err. offer_lookups e off w1 = Inl err \<longrightarrow>
            snd (post_offers e r w) =
              w1\<lparr>console := console w1 @ [OfferDispatchFailed (offer_id off) err]\<rparr>) \<and>
         (\<forall>sender requestedItem err w2.
            offer_lookups e off w1 = Inr (sender, requestedItem) \<and>
            sendOfferNotification e (queued_notification off sender requestedItem) w1 = (Inl err, w2) \<longrightarrow>
            snd (post_offers e r w) =
              w2\<lparr>console := console w2 @ [OfferDispatchFailed (offer_id off) err]\<rparr>)"
proof -
  have a: "fst (post_offers e r w) = ok_response 201 off None"
    by (simp add: post_offers_def assms)
  have b: "offers (snd (post_offers e r w)) = offers w1"
    by (simp add: post_offers_def assms queueOfferNotificationForOffer_offers)
  have c: "off \<in> set (offers w1)"
    using assms by (auto simp: save_offer_def split: sum.splits option.splits if_splits)
  have d: "\<forall>err. offer_lookups e off w1 = Inl err \<longrightarrow>
            snd (post_offers e r w) =
              w1\<lparr>console := console w1 @ [OfferDispatchFailed (offer_id off) err]\<rparr>"
    by (simp add: post_offers_def assms queueOfferNotificationForOffer_def)
  have f: "\<forall>sender requestedItem err w2.
            offer_lookups e off w1 = Inr (sender, requestedItem) \<and>
            sendOfferNotification e (queued_notification off sender requestedItem) w1 = (Inl err, w2) \<longrightarrow>
            snd (post_offers e r w) =
              w2\<lparr>console := console w2 @ [OfferDispatchFailed (offer_id off) err]\<rparr>"
    by (simp add: post_offers_def assms queueOfferNotificationForOffer_def)
  from a b c d f show ?thesis by (simp add: ok_response_def)
qed

theorem post_offers_ignores_notification_failure_witness:
  "save_offer provider_down_env sample_offer_body sample_world =
     Inr (sample_offer, sample_world\<lparr>offers := [sample_offer]\<rparr>) \<and>
   fst (post_offers provider_down_env sample_offer_body sample_world) =
     ok_response 201 sample_offer None \<and>
   last (console (snd (post_offers provider_down_env sample_offer_body sample_world))) =
     OfferDispatchFailed ''o1'' (Error ''provider unavailable'') \<and>
   fst (post_offers lookup_fail_env sample_offer_body sample_world) =
     ok_response 201 sample_offer None \<and>
   console (snd (post_offers lookup_fail_env sample_offer_body sample_world)) =
     [OfferDispatchFailed ''o1'' (Error ''connection lost'')] \<and>
   fst (post_offers unconfigured_env sample_offer_body sample_world) =
     ok_response 201 sample_offer None"
proof -
  let ?w1 = "sample_world\<lparr>offers := [sample_offer]\<rparr>"
  have s1: "save_offer provider_down_env sample_offer_body sample_world = Inr (sample_offer, ?w1)"
    by (simp add: offer_defs sample_defs)
  have s2: "save_offer lookup_fail_env sample_offer_body sample_world = Inr (sample_offer, ?w1)"
    by (simp add: offer_defs sample_defs)
  have s3: "save_offer unconfigured_env sample_offer_body sample_world = Inr (sample_offer, ?w1)"
    by (simp add: offer_defs sample_defs)
  note t1 = post_offers_ignores_notification_failure[OF s1]
  note t2 = post_offers_ignores_notification_failure[OF s2]
  note t3 = post_offers_ignores_notification_failure[OF s3]
  have l2: "offer_lookups lookup_fail_env sample_offer ?w1 = Inl (Error ''connection lost'')"
    by (simp add: offer_defs sample_defs)
  from t2 l2 have c2: "snd (post_offers lookup_fail_env sample_offer_body sample_world) =
     ?w1\<lparr>console := console ?w1 @ [OfferDispatchFailed (offer_id sample_offer) (Error ''connection lost'')]\<rparr>"
    by blast
  have c2': "console (snd (post_offers lookup_fail_env sample_offer_body sample_world)) =
     [OfferDispatchFailed ''o1'' (Error ''connection lost'')]"
    unfolding c2 by (simp add: sample_defs offer_defs)
  have c1: "last (console (snd (post_offers provider_down_env sample_offer_body sample_world))) =
     OfferDispatchFailed ''o1'' (Error ''provider unavailable'')"
    by (simp add: offer_defs notify_defs sample_defs)
  from t1 t2 t3 s1 c1 c2' show ?thesis by simp
qed

section \<open>Token registration\<close>












section \<open>Soft deletion of an item\<close>

lemma find_split_update_first:
  "find p xs = Some x \<Longrightarrow>
   \<exists>pre post. xs = pre @ x # post \<and> (\<forall>j \<in> set pre. \<not> p j) \<and>
     update_first p f xs = pre @ f x # post"
proof (induction xs)
  case Nil
  then show ?case by simp
next
  case (Cons y ys)
  show ?case
  proof (cases "p y")
    case True
    with Cons.prems have "y = x" by simp
    with True have "y # ys = [] @ x # ys \<and> (\<forall>j \<in> set []. \<not> p j) \<and>
       update_first p f (y # ys) = [] @ f x # ys" by simp
    then show ?thesis by blast
  next
    case False
    with Cons.prems have "find p ys = Some x" by simp
    from Cons.IH[OF this] obtain pre post where
      "ys = pre @ x # post" "\<forall>j \<in> set pre. \<not> p j" "update_first p f ys = pre @ f x # post"
      by blast
    with False have "y # ys = (y # pre) @ x # post \<and> (\<forall>j \<in> set (y # pre). \<not> p j) \<and>
       update_first p f (y # ys) = (y # pre) @ f x # post" by simp
    then show ?thesis by blast
  qed
qed

lemma find_items_available:
  assumes "find_items e q w = Inr xs"
  shows "set xs \<subseteq> {i \<in> set (items w). isAvailable i}"
proof -
  let ?s = "rev (sort_key item_createdAt (filter (items_filter e q) (items w)))"
  define page where "page = (case q_page q of None \<Rightarrow> 1 | Some p \<Rightarrow> p)"
  define limit where "limit = (case q_limit q of None \<Rightarrow> 20 | Some l \<Rightarrow> l)"
  have s: "set ?s \<subseteq> {i \<in> set (items w). isAvailable i}"
    by (auto simp: items_filter_def)
  have f: "find_items e q w =
     (case db_error e FindItems of
        Some msg \<Rightarrow> Inl (Error msg)
      | None \<Rightarrow>
          if limit = 0 then Inr ?s
          else if page = 0 then Inl (Error ''Skip value must be non-negative'')
          else Inr (take limit (drop ((page - 1) * limit) ?s)))"
    unfolding find_items_def Let_def page_def limit_def by (rule refl)
  from assms have "xs = ?s \<or> xs = take limit (drop ((page - 1) * limit) ?s)"
    unfolding f by (cases "db_error e FindItems") (auto split: if_splits)
  moreover have "set (take limit (drop ((page - 1) * limit) ?s)) \<subseteq> set ?s"
    using set_take_subset set_drop_subset by (rule subset_trans)
  ultimately have "set xs \<subseteq> set ?s"
    by blast
  with s show ?thesis by blast
qed

text \<open>
  Claim C9. Deleting an existing item answers 200 with the document in which only
  \<open>isAvailable\<close> (now false) and \<open>updatedAt\<close> (now the current time) differ from the
  stored one; the collection keeps every document, that one replaced in place, and the
  other collections are untouched; and whatever the query, the item listing afterwards
  returns available items only, so it does not return the deleted document.
\<close>

theorem delete_item_is_soft:
  assumes "db_error e (UpdateItem itemId) = None"
      and "find_item w itemId = Some i"
  shows "fst (delete_item e itemId w) =
           ok_response 200 (i\<lparr>isAvailable := False, item_updatedAt := now e\<rparr>) None \<and>
         (\<exists>pre post.
            items w = pre @ i # post \<and> (\<forall>j \<in> set pre. item_id j \<noteq> itemId) \<and>
            items (snd (delete_item e itemId w)) =
              pre @ i\<lparr>isAvailable := False, item_updatedAt := now e\<rparr> # post) \<and>
         find_item (snd (delete_item e itemId w)) itemId =
           Some (i\<lparr>isAvailable := False, item_updatedAt := now e\<rparr>) \<and>
         users (snd (delete_item e itemId w)) = users w \<and>
         offers (snd (delete_item e itemId w)) = offers w \<and>
         (\<forall>e' q xs. find_items e' q (snd (delete_item e itemId w)) = Inr xs \<longrightarrow>
            (\<forall>x \<in> set xs. isAvailable x) \<and>
            i\<lparr>isAvailable := False, item_updatedAt := now e\<rparr> \<notin> set xs) \<and>
         (\<forall>e' q xs pg. resp_data (get_items e' q (snd (delete_item e itemId w))) = Some (xs, pg) \<longrightarrow>
            (\<forall>x \<in> set xs. isAvailable x))"
proof -
  let ?i' = "i\<lparr>isAvailable := False, item_updatedAt := now e\<rparr>"
  let ?w' = "snd (delete_item e itemId w)"
  have w': "?w' = w\<lparr>items := update_first (\<lambda>i. item_id i = itemId) (soft_delete (now e)) (items w)\<rparr>"
    by (simp add: delete_item_def assms)
  have a: "fst (delete_item e itemId w) = ok_response 200 ?i' None"
    by (simp add: delete_item_def assms soft_delete_def)
  from assms(2) have f: "find (\<lambda>i. item_id i = itemId) (items w) = Some i"
    by (simp add: find_item_def)
  from find_split_update_first[OF f, of "soft_delete (now e)"]
  have b: "\<exists>pre post.
            items w = pre @ i # post \<and> (\<forall>j \<in> set pre. item_id j \<noteq> itemId) \<and>
            items ?w' = pre @ ?i' # post"
    by (simp add: w' soft_delete_def)
  have c: "find_item ?w' itemId = Some ?i'"
    using find_update_first[of "\<lambda>i. item_id i = itemId" "soft_delete (now e)" "items w"] f
    by (simp add: w' find_item_def soft_delete_def)
  have d: "users ?w' = users w \<and> offers ?w' = offers w"
    by (simp add: w')
  have l: "\<forall>e' q xs. find_items e' q ?w' = Inr xs \<longrightarrow>
            (\<forall>x \<in> set xs. isAvailable x) \<and> ?i' \<notin> set xs"
  proof (intro allI impI)
    fix e' q xs assume "find_items e' q ?w' = Inr xs"
    from find_items_available[OF this] have s: "\<forall>x \<in> set xs. isAvailable x" by blast
    then have "?i' \<notin> set xs" by auto
    with s show "(\<forall>x \<in> set xs. isAvailable x) \<and> ?i' \<notin> set xs" by blast
  qed
  have r: "\<forall>e' q xs pg. resp_data (get_items e' q ?w') = Some (xs, pg) \<longrightarrow>
            (\<forall>x \<in> set xs. isAvailable x)"
  proof (intro allI impI)
    fix e' q xs pg assume g: "resp_data (get_items e' q ?w') = Some (xs, pg)"
    then have "find_items e' q ?w' = Inr xs"
      by (auto simp: get_items_def Let_def fail_response_def ok_response_def
               split: sum.splits option.splits)
    with l show "\<forall>x \<in> set xs. isAvailable x" by blast
  qed
  from a b c d l r show ?thesis by blast
qed

theorem delete_item_is_soft_witness:
  "db_error sample_env (UpdateItem ''i1'') = None \<and>
   find_item shop_world ''i1'' = Some guitar \<and>
   find_items sample_env default_query shop_world = Inr [amp, guitar] \<and>
   fst (delete_item sample_env ''i1'' shop_world) =
     ok_response 200 (guitar\<lparr>isAvailable := False, item_updatedAt := 1000\<rparr>) None \<and>
   items (snd (delete_item sample_env ''i1'' shop_world)) =
     [guitar\<lparr>isAvailable := False, item_updatedAt := 1000\<rparr>, amp] \<and>
   find_items sample_env default_query (snd (delete_item sample_env ''i1'' shop_world)) = Inr [amp]"
proof -
  have d: "db_error sample_env (UpdateItem ''i1'') = None"
    by (simp add: sample_defs)
  have f: "find_item shop_world ''i1'' = Some guitar"
    by (simp add: find_item_def shop_world_def sample_defs)
  have n: "now sample_env = 1000"
    by (simp add: sample_defs)
  note t = delete_item_is_soft[OF d f]
  from t have a: "fst (delete_item sample_env ''i1'' shop_world) =
     ok_response 200 (guitar\<lparr>isAvailable := False, item_updatedAt := 1000\<rparr>) None"
    unfolding n by blast
  have b: "items (snd (delete_item sample_env ''i1'' shop_world)) =
     [guitar\<lparr>isAvailable := False, item_updatedAt := 1000\<rparr>, amp]"
  proof -
    have "items (snd (delete_item sample_env ''i1'' shop_world)) =
       update_first (\<lambda>i. item_id i = ''i1'') (soft_delete 1000) (items shop_world)"
      by (simp add: delete_item_def d f n)
    then show ?thesis
      by (simp add: shop_world_def soft_delete_def sample_defs amp_def)
  qed
  have l0: "find_items sample_env default_query shop_world = Inr [amp, guitar]"
    by (simp add: find_items_def items_filter_def default_query_def nonempty_def shop_world_def
          sample_defs amp_def Let_def)
  have "find_items sample_env default_query (snd (delete_item sample_env ''i1'' shop_world)) =
     find_items sample_env default_query
       (shop_world\<lparr>items := [guitar\<lparr>isAvailable := False, item_updatedAt := 1000\<rparr>, amp]\<rparr>)"
    by (simp add: find_items_def b)
  also have "\<dots> = Inr [amp]"
    by (simp add: find_items_def items_filter_def default_query_def nonempty_def
          shop_world_def sample_defs amp_def Let_def)
  finally have l1:
    "find_items sample_env default_query (snd (delete_item sample_env ''i1'' shop_world)) = Inr [amp]" .
  from d f a b l0 l1 show ?thesis by simp
qed

end
